theory Spec2Isabelle
  imports Main "HOL-Library.Sublist" "HOL-Library.AList"
begin

section \<open>Python string primitives used by \<^verbatim>\<open>Bio/Align/hhr.py\<close>\<close>

text \<open>
  A Python \<^verbatim>\<open>str\<close> is modelled as a \<^typ>\<open>string\<close>, one \<^typ>\<open>char\<close> per code point
  below 256.  \<^verbatim>\<open>str.isspace\<close> is true on exactly the following code points of that
  range; \<^verbatim>\<open>strip\<close>, \<^verbatim>\<open>rstrip\<close> and \<^verbatim>\<open>split\<close> without a separator use the same
  set.
\<close>

definition isspace :: "char \<Rightarrow> bool" where
  "isspace c \<longleftrightarrow> c \<in> {CHR 0x09, CHR 0x0A, CHR 0x0B, CHR 0x0C, CHR 0x0D,
                        CHR 0x1C, CHR 0x1D, CHR 0x1E, CHR 0x1F, CHR 0x20,
                        CHR 0x85, CHR 0xA0}"

definition lstrip :: "string \<Rightarrow> string" where
  "lstrip s = dropWhile isspace s"

definition rstrip :: "string \<Rightarrow> string" where
  "rstrip s = rev (dropWhile isspace (rev s))"

definition strip :: "string \<Rightarrow> string" where
  "strip s = lstrip (rstrip s)"

text \<open>\<^verbatim>\<open>s.rstrip(chars)\<close> with an explicit set of characters.\<close>

definition rstrip_chars :: "string \<Rightarrow> string \<Rightarrow> string" where
  "rstrip_chars chars s = rev (dropWhile (\<lambda>c. c \<in> set chars) (rev s))"

text \<open>
  \<^verbatim>\<open>s.split()\<close>: the maximal runs of non-whitespace characters, in order.  The first
  argument is the word read so far.
\<close>

fun split_acc :: "string \<Rightarrow> string \<Rightarrow> string list" where
  "split_acc w [] = (if w = [] then [] else [w])"
| "split_acc w (c # cs) =
     (if isspace c then (if w = [] then split_acc [] cs else w # split_acc [] cs)
      else split_acc (w @ [c]) cs)"

definition split :: "string \<Rightarrow> string list" where
  "split s = split_acc [] s"

text \<open>
  \<^verbatim>\<open>s.split(None, 1)\<close>: the first word and, when anything but whitespace follows it,
  the remainder with its leading whitespace removed (trailing whitespace is kept).
\<close>

definition split1 :: "string \<Rightarrow> string list" where
  "split1 s =
     (let t = lstrip s in
      if t = [] then []
      else
        let w = takeWhile (\<lambda>c. \<not> isspace c) t;
            r = lstrip (dropWhile (\<lambda>c. \<not> isspace c) t)
        in if r = [] then [w] else [w, r])"

text \<open>
  \<^verbatim>\<open>s.rsplit(None, 1)\<close>: the last word and, when anything but whitespace precedes it,
  the part before it with its trailing whitespace removed (leading whitespace is kept).
\<close>

definition rsplit1 :: "string \<Rightarrow> string list" where
  "rsplit1 s =
     (let t = rstrip s in
      if t = [] then []
      else
        let w = rev (takeWhile (\<lambda>c. \<not> isspace c) (rev t));
            r = rstrip (rev (dropWhile (\<lambda>c. \<not> isspace c) (rev t)))
        in if r = [] then [w] else [r, w])"

text \<open>
  \<^verbatim>\<open>s.split(sep)\<close> for a non-empty separator: the pieces between the non-overlapping
  occurrences of \<open>sep\<close>, found from the left.  The second argument is the piece read so
  far, the third is the fuel (the number of characters left, so that the recursion is
  structural).
\<close>

fun split_sep_acc :: "string \<Rightarrow> string \<Rightarrow> nat \<Rightarrow> string \<Rightarrow> string list" where
  "split_sep_acc sep w 0 s = [w @ s]"
| "split_sep_acc sep w (Suc n) s =
     (case s of
        [] \<Rightarrow> [w]
      | c # cs \<Rightarrow>
          if prefix sep s then w # split_sep_acc sep [] n (drop (length sep) s)
          else split_sep_acc sep (w @ [c]) n cs)"

definition split_sep :: "string \<Rightarrow> string \<Rightarrow> string list" where
  "split_sep sep s = split_sep_acc sep [] (length s) s"

text \<open>\<^verbatim>\<open>s.replace(c, "")\<close> for a one-character \<open>c\<close>.\<close>

definition remove_char :: "char \<Rightarrow> string \<Rightarrow> string" where
  "remove_char c s = filter (\<lambda>x. x \<noteq> c) s"

text \<open>\<^verbatim>\<open>" " * n\<close>: empty when \<open>n \<le> 0\<close>.\<close>

definition spaces :: "int \<Rightarrow> string" where
  "spaces n = replicate (nat n) (CHR '' '')"

text \<open>The slice \<^verbatim>\<open>s[1:-1]\<close>.\<close>

definition slice_1_m1 :: "string \<Rightarrow> string" where
  "slice_1_m1 s = butlast (tl s)"

text \<open>
  \<^verbatim>\<open>int(s)\<close> in base 10: surrounding whitespace is ignored, one sign is allowed, and
  single underscores may separate groups of digits.  \<open>None\<close> stands for the
  \<^verbatim>\<open>ValueError\<close> that Python raises on anything else.  The interpreter's limit on
  the number of digits of a literal is not modelled.
\<close>

definition digit_val :: "char \<Rightarrow> nat option" where
  "digit_val c = map_of (zip ''0123456789'' [0 ..< 10]) c"

fun digits_val :: "nat \<Rightarrow> string \<Rightarrow> nat option" where
  "digits_val acc [] = Some acc"
| "digits_val acc (c # cs) =
     (case digit_val c of None \<Rightarrow> None | Some d \<Rightarrow> digits_val (10 * acc + d) cs)"

definition py_digits :: "string \<Rightarrow> nat option" where
  "py_digits s =
     (let groups = split_sep ''_'' s in
      if list_all (\<lambda>g. g \<noteq> []) groups then digits_val 0 (concat groups) else None)"

definition py_int :: "string \<Rightarrow> int option" where
  "py_int s =
     (case strip s of
        [] \<Rightarrow> None
      | c # cs \<Rightarrow>
          if c = CHR ''-'' then map_option (\<lambda>n. - int n) (py_digits cs)
          else if c = CHR ''+'' then map_option int (py_digits cs)
          else map_option int (py_digits (c # cs)))"

section \<open>Errors\<close>

text \<open>
  Every exception the module can raise is a value.  \<^verbatim>\<open>ValueError\<close> carries what was
  wrong instead of the formatted message; \<^verbatim>\<open>AssertionError\<close>, \<^verbatim>\<open>AttributeError\<close> and
  \<^verbatim>\<open>KeyError\<close> carry the asserted expression, the attribute and the key that the
  traceback would show.  The \<^verbatim>\<open>assert\<close> statements are modelled as executed (the
  interpreter's default; under \<^verbatim>\<open>-O\<close> they would vanish).  \<open>RuntimeError\<close> is what a
  generator turns a \<^verbatim>\<open>StopIteration\<close> raised in its body into.
\<close>

datatype value_error =
    UnknownKey string
  | Unpack
  | InvalidInt string
  | InvalidFloat string
  | TruncatedFile
  | BeyondLength
  | AdditionalData
  | FailedToParse string
  | ExpectedAlignments int int

datatype error =
    ValueError value_error
  | AssertionError string
  | AttributeError string
  | KeyError string
  | IndexError
  | TypeError
  | RuntimeError

definition bind :: "error + 'a \<Rightarrow> ('a \<Rightarrow> error + 'b) \<Rightarrow> error + 'b" where
  "bind m f = (case m of Inl e \<Rightarrow> Inl e | Inr x \<Rightarrow> f x)"

definition int_of :: "string \<Rightarrow> error + int" where
  "int_of s = (case py_int s of None \<Rightarrow> Inl (ValueError (InvalidInt s)) | Some v \<Rightarrow> Inr v)"

text \<open>
  \<^verbatim>\<open>float(s)\<close> is not modelled: every function below that converts to a float takes
  the conversion as its first argument \<open>py_float\<close>, with \<open>None\<close> for the
  \<^verbatim>\<open>ValueError\<close>, and the type \<open>'f\<close> of floats stays abstract.
\<close>

definition float_of :: "(string \<Rightarrow> 'f option) \<Rightarrow> string \<Rightarrow> error + 'f" where
  "float_of py_float s =
     (case py_float s of None \<Rightarrow> Inl (ValueError (InvalidFloat s)) | Some v \<Rightarrow> Inr v)"

section \<open>The iterator's state\<close>

text \<open>The \<^verbatim>\<open>metadata\<close> dictionary: one optional entry per key the header can set.\<close>

record 'f metadata =
  Match_columns :: "int option"
  No_of_seqs :: "(int \<times> int) option"
  Neff :: "'f option"
  Template_Neff :: "'f option"
  Searched_HMMs :: "int option"
  Rundate :: "string option"
  Command_line :: "string option"

definition empty_metadata :: "'f metadata" where
  "empty_metadata =
     \<lparr>Match_columns = None, No_of_seqs = None, Neff = None, Template_Neff = None,
      Searched_HMMs = None, Rundate = None, Command_line = None\<rparr>"

text \<open>
  The attributes that the \<^verbatim>\<open>>\<close> branch of \<^verbatim>\<open>parse\<close> assigns.  Nothing else creates
  them, and the branch either assigns all of them or raises (which ends the generator),
  so whenever \<^verbatim>\<open>parse\<close> goes on, either all of them exist or none does: they are one
  optional record in the state.  \<open>query_start\<close> and \<open>target_start\<close> hold Python's
  \<^verbatim>\<open>None\<close> as \<open>None\<close>.
\<close>

record 'f hit =
  hmm_name :: string
  hmm_description :: string
  query_ss_pred :: string
  query_consensus :: string
  query_sequence :: string
  query_start :: "int option"
  target_ss_pred :: string
  target_consensus :: string
  target_ss_dssp :: string
  target_sequence :: string
  target_start :: "int option"
  column_score :: string
  confidence :: string
  annotations :: "(string \<times> 'f) list"

text \<open>
  The attributes of \<^verbatim>\<open>self\<close>.  An attribute that may not exist yet is an option, and
  reading it while it is \<open>None\<close> is an \<^verbatim>\<open>AttributeError\<close>: \<open>query_name\<close> exists only
  after a \<^verbatim>\<open>Query\<close> header line, \<open>query_length\<close> only after a \<^verbatim>\<open>Q\<close> sequence line,
  \<open>target_name\<close> and \<open>target_length\<close> only after a \<^verbatim>\<open>T\<close> sequence line (the \<^verbatim>\<open>>\<close>
  branch does not reset these three).
\<close>

record 'f state =
  query_name :: "string option"
  metadata :: "'f metadata"
  number :: int
  counter :: int
  query_length :: "int option"
  target_name :: "string option"
  target_length :: "int option"
  hit :: "'f hit option"

section \<open>\<^verbatim>\<open>AlignmentIterator.__init__\<close>: header and summary table\<close>

text \<open>
  The stream is the list of the lines not yet read; \<^verbatim>\<open>for line in stream\<close> and
  \<^verbatim>\<open>next(stream)\<close> take its head.  Lines 50 to 71: the loop over the header lines,
  returning the query name, the metadata and the stream after the blank line (or the
  empty stream when no blank line came).
\<close>

fun read_header ::
  "(string \<Rightarrow> 'f option) \<Rightarrow> string option \<times> 'f metadata \<Rightarrow> string list \<Rightarrow>
   error + ((string option \<times> 'f metadata) \<times> string list)" where
  "read_header py_float (qn, md) [] = Inr ((qn, md), [])"
| "read_header py_float (qn, md) (raw # stream) =
     (let line = strip raw in
      if line = [] then Inr ((qn, md), stream)
      else
        case split1 line of
          [key, val] \<Rightarrow>
            if key = ''Query'' then read_header py_float (Some val, md) stream
            else if key = ''Match_columns'' then
              bind (int_of val) (\<lambda>v.
                read_header py_float (qn, md\<lparr>Match_columns := Some v\<rparr>) stream)
            else if key = ''No_of_seqs'' then
              (case split_sep '' out of '' val of
                 [value1, value2] \<Rightarrow>
                   bind (int_of value1) (\<lambda>v1. bind (int_of value2) (\<lambda>v2.
                     read_header py_float (qn, md\<lparr>No_of_seqs := Some (v1, v2)\<rparr>) stream))
               | _ \<Rightarrow> Inl (ValueError Unpack))
            else if key = ''Neff'' then
              bind (float_of py_float val) (\<lambda>v.
                read_header py_float (qn, md\<lparr>Neff := Some v\<rparr>) stream)
            else if key = ''Template_Neff'' then
              bind (float_of py_float val) (\<lambda>v.
                read_header py_float (qn, md\<lparr>Template_Neff := Some v\<rparr>) stream)
            else if key = ''Searched_HMMs'' then
              bind (int_of val) (\<lambda>v.
                read_header py_float (qn, md\<lparr>Searched_HMMs := Some v\<rparr>) stream)
            else if key = ''Date'' then
              read_header py_float (qn, md\<lparr>Rundate := Some val\<rparr>) stream
            else if key = ''Command'' then
              read_header py_float (qn, md\<lparr>Command_line := Some val\<rparr>) stream
            else Inl (ValueError (UnknownKey key))
        | _ \<Rightarrow> Inl (ValueError Unpack))"

text \<open>Lines 77 to 90: the tokens of the summary table's column header.\<close>

definition table_header :: "string list" where
  "table_header =
     [''No'', ''Hit'', ''Prob'', ''E-value'', ''P-value'', ''Score'', ''SS'', ''Cols'',
      ''Query'', ''HMM'', ''Template'', ''HMM'']"

text \<open>Lines 91 to 97: the loop over the rows of the summary table, counting them.\<close>

fun read_table :: "int \<Rightarrow> string list \<Rightarrow> error + (int \<times> string list)" where
  "read_table n [] = Inr (n, [])"
| "read_table n (raw # stream) =
     (if strip raw = [] then Inr (n, stream)
      else
        case split1 raw of
          [word, _] \<Rightarrow>
            bind (int_of word) (\<lambda>v.
              if v = n + 1 then read_table (n + 1) stream
              else Inl (AssertionError ''int(word) == number''))
        | _ \<Rightarrow> Inl (ValueError Unpack))"

text \<open>
  \<^verbatim>\<open>__init__\<close> as a whole: the state of the new iterator and the stream behind the
  summary table, or the exception that construction raises.
\<close>

definition init ::
  "(string \<Rightarrow> 'f option) \<Rightarrow> string list \<Rightarrow> error + ('f state \<times> string list)" where
  "init py_float stream =
     bind (read_header py_float (None, empty_metadata) stream) (\<lambda>((qn, md), stream1).
       case stream1 of
         [] \<Rightarrow> Inl (ValueError TruncatedFile)
       | line # stream2 \<Rightarrow>
           if split line \<noteq> table_header
           then Inl (AssertionError ''line.split() == [...]'')
           else
             bind (read_table 0 stream2) (\<lambda>(n, stream3).
               Inr (\<lparr>query_name = qn, metadata = md, number = n, counter = 0,
                     query_length = None, target_name = None, target_length = None,
                     hit = None\<rparr>, stream3)))"

section \<open>\<^verbatim>\<open>AlignmentIterator._create_alignment\<close>\<close>

text \<open>
  The containers \<^verbatim>\<open>Seq\<close>, \<^verbatim>\<open>SeqRecord\<close> and \<^verbatim>\<open>Alignment\<close> are defined outside this
  module.  The records below hold what \<^verbatim>\<open>_create_alignment\<close> hands to them: for a
  \<^verbatim>\<open>SeqRecord\<close> its id, the dictionary \<^verbatim>\<open>{start: residues}\<close> and the length given to
  \<^verbatim>\<open>Seq\<close>, its annotations and the strings stored in \<^verbatim>\<open>letter_annotations\<close>; for the
  \<^verbatim>\<open>Alignment\<close> the two records, the coordinates, the annotations and the column
  annotations.  The checks that \<^verbatim>\<open>Seq\<close> and \<^verbatim>\<open>SeqRecord\<close> make on these values are
  modelled below.  A Python dictionary is the list of its items in insertion order;
  \<^verbatim>\<open>d[key] = value\<close> is \<^const>\<open>AList.update\<close>, which replaces the value of a key
  that is present and appends the item otherwise.
\<close>

record seq_record =
  seq_id :: string
  seq_data :: "int \<times> string"
  seq_length :: int
  seq_annotations :: "(string \<times> string) list"
  letter_annotations :: "(string \<times> string) list"

record 'f alignment =
  target :: seq_record
  query :: seq_record
  coordinates :: "(int \<times> int) list"
  alignment_annotations :: "(string \<times> 'f) list"
  column_annotations :: "(string \<times> string) list"

text \<open>
  Modelled from the spec: \<^verbatim>\<open>Alignment.infer_coordinates\<close>, which is defined in
  \<^verbatim>\<open>Bio/Align/__init__.py\<close>.  The two gapped strings are scanned in lockstep; a column
  advances the offset of each side that has no gap there; a breakpoint
  (target offset, query offset) is produced at the start, wherever the kind of column
  changes, and at the end.
\<close>

fun coordinates_acc ::
  "(bool \<times> bool) option \<Rightarrow> int \<times> int \<Rightarrow> (char \<times> char) list \<Rightarrow> (int \<times> int) list" where
  "coordinates_acc cur (i, j) [] = [(i, j)]"
| "coordinates_acc cur (i, j) ((t, q) # cols) =
     (let kind = (t \<noteq> CHR ''-'', q \<noteq> CHR ''-'');
          nxt = (if fst kind then i + 1 else i, if snd kind then j + 1 else j)
      in if cur = Some kind then coordinates_acc cur nxt cols
         else (i, j) # coordinates_acc (Some kind) nxt cols)"

definition infer_coordinates :: "string \<Rightarrow> string \<Rightarrow> (int \<times> int) list" where
  "infer_coordinates t q = (if t = [] then [] else coordinates_acc None (0, 0) (zip t q))"

text \<open>
  Modelled from the spec: the constructor of \<^verbatim>\<open>Seq\<close> (\<^verbatim>\<open>Bio/Seq.py\<close>, outside this
  module) for the dictionary \<^verbatim>\<open>{start: residues}\<close> and a length.  The spec's labeled
  sequence has a declared total length and holds its residues from its start offset
  on, inside that length; residues that would extend beyond the declared length are
  refused with a \<^verbatim>\<open>ValueError\<close>.
\<close>

definition new_seq :: "int \<Rightarrow> string \<Rightarrow> int \<Rightarrow> error + (int \<times> string)" where
  "new_seq start residues len =
     (if 0 \<le> start \<and> start + int (length residues) \<le> len then Inr (start, residues)
      else Inl (ValueError BeyondLength))"

text \<open>
  Modelled from the spec: the assignment \<^verbatim>\<open>record.letter_annotations[key] = track\<close> of
  \<^verbatim>\<open>SeqRecord\<close> (\<^verbatim>\<open>Bio/SeqRecord.py\<close>, outside this module), for a record whose
  sequence has the length \<open>len\<close>.  The spec's per-residue annotation tracks are parallel
  to the sequence: a track of any other length is refused with a \<^verbatim>\<open>TypeError\<close>.
\<close>

definition set_letter_annotation ::
  "int \<Rightarrow> string \<Rightarrow> string \<Rightarrow> (string \<times> string) list \<Rightarrow> error + (string \<times> string) list" where
  "set_letter_annotation len key track d =
     (if int (length track) = len then Inr (AList.update key track d) else Inl TypeError)"

text \<open>
  Lines 125 and 126 (and their five repetitions): a track is put behind \<open>start\<close> blanks
  and then filled with blanks up to \<open>total'\<close> characters.
\<close>

definition pad_track :: "int \<Rightarrow> int \<Rightarrow> string \<Rightarrow> string" where
  "pad_track start total' track =
     (let t = spaces start @ track in t @ spaces (total' - int (length t)))"

text \<open>
  Lines 102 to 153.  The coordinates of two empty gapped sequences are an empty array,
  and taking its first row (line 112) is an \<^verbatim>\<open>IndexError\<close>; adding a start offset that
  is \<^verbatim>\<open>None\<close> to a row is a \<^verbatim>\<open>TypeError\<close>.
\<close>

definition create_alignment :: "'f state \<Rightarrow> error + 'f alignment" where
  "create_alignment self =
     (case query_name self of None \<Rightarrow> Inl (AttributeError ''query_name'') | Some qname \<Rightarrow>
      case query_length self of None \<Rightarrow> Inl (AttributeError ''query_length'') | Some qlen \<Rightarrow>
      case Match_columns (metadata self) of None \<Rightarrow> Inl (KeyError ''Match_columns'') | Some mc \<Rightarrow>
      if qlen \<noteq> mc
      then Inl (AssertionError ''query_length == self.metadata[Match_columns]'')
      else
      case target_name self of None \<Rightarrow> Inl (AttributeError ''target_name'') | Some tname \<Rightarrow>
      case hit self of None \<Rightarrow> Inl (AttributeError ''hmm_name'') | Some h \<Rightarrow>
      if length (target_sequence h) \<noteq> length (query_sequence h)
      then Inl (AssertionError ''len(target_sequence) == len(query_sequence)'')
      else if target_sequence h = [] then Inl IndexError
      else
      case target_start h of None \<Rightarrow> Inl TypeError | Some tstart \<Rightarrow>
      case query_start h of None \<Rightarrow> Inl TypeError | Some qstart \<Rightarrow>
      bind (new_seq qstart (remove_char (CHR ''-'') (query_sequence h)) qlen) (\<lambda>qdata.
      case target_length self of None \<Rightarrow> Inl (AttributeError ''target_length'') | Some tlen \<Rightarrow>
      bind (new_seq tstart (remove_char (CHR ''-'') (target_sequence h)) tlen) (\<lambda>tdata.
      bind (set_letter_annotation qlen ''Consensus''
              (pad_track qstart qlen (remove_char (CHR ''-'') (query_consensus h))) [])
        (\<lambda>qla1.
      bind (set_letter_annotation tlen ''Consensus''
              (pad_track tstart tlen (remove_char (CHR ''-'') (target_consensus h))) [])
        (\<lambda>tla1.
      bind (set_letter_annotation tlen ''ss_dssp''
              (pad_track tstart tlen (remove_char (CHR ''-'') (target_ss_dssp h))) tla1)
        (\<lambda>tla2.
      bind (set_letter_annotation qlen ''ss_pred''
              (pad_track qstart qlen (remove_char (CHR ''-'') (query_ss_pred h))) qla1)
        (\<lambda>qla2.
      bind (set_letter_annotation tlen ''ss_pred''
              (pad_track tstart tlen (remove_char (CHR ''-'') (target_ss_pred h))) tla2)
        (\<lambda>tla3.
      bind (set_letter_annotation tlen ''Confidence''
              (pad_track tstart tlen (remove_char (CHR '' '') (confidence h))) tla3)
        (\<lambda>tla4.
      Inr \<lparr>target =
             \<lparr>seq_id = tname, seq_data = tdata, seq_length = tlen,
              seq_annotations =
                [(''hmm_name'', hmm_name h), (''hmm_description'', hmm_description h)],
              letter_annotations = tla4\<rparr>,
            query =
             \<lparr>seq_id = qname, seq_data = qdata, seq_length = qlen,
              seq_annotations = [], letter_annotations = qla2\<rparr>,
            coordinates =
              map (\<lambda>(i, j). (i + tstart, j + qstart))
                (infer_coordinates (target_sequence h) (query_sequence h)),
            alignment_annotations = annotations h,
            column_annotations = [(''column score'', column_score h)]\<rparr>)))))))))"

section \<open>\<^verbatim>\<open>AlignmentIterator.parse\<close>\<close>

text \<open>Lines 177 to 186: the \<^verbatim>\<open>key=value\<close> words of the line behind a \<^verbatim>\<open>>\<close> line.\<close>

fun read_annotations ::
  "(string \<Rightarrow> 'f option) \<Rightarrow> string list \<Rightarrow> (string \<times> 'f) list \<Rightarrow>
   error + (string \<times> 'f) list" where
  "read_annotations py_float [] ann = Inr ann"
| "read_annotations py_float (word # words) ann =
     (case split_sep ''='' word of
        [key, val] \<Rightarrow>
          if key = ''Aligned_cols'' then read_annotations py_float words ann
          else
            bind (float_of py_float (if key = ''Identities'' then rstrip_chars ''%'' val else val))
              (\<lambda>v. read_annotations py_float words (AList.update key v ann))
      | _ \<Rightarrow> Inl (ValueError Unpack))"

text \<open>Lines 164 to 186: the branch of a line that starts with \<^verbatim>\<open>>\<close>.\<close>

definition start_hit ::
  "(string \<Rightarrow> 'f option) \<Rightarrow> 'f state \<Rightarrow> string \<Rightarrow> string list \<Rightarrow>
   error + ('f state \<times> string list)" where
  "start_hit py_float self line stream =
     (case split1 (tl line) of
        [name, descr] \<Rightarrow>
          (case stream of
             [] \<Rightarrow> Inl RuntimeError
           | nxt # stream' \<Rightarrow>
               bind (read_annotations py_float (split nxt) []) (\<lambda>ann.
                 Inr (self\<lparr>hit := Some
                        \<lparr>hmm_name = name, hmm_description = descr,
                         query_ss_pred = [], query_consensus = [], query_sequence = [],
                         query_start = None,
                         target_ss_pred = [], target_consensus = [], target_ss_dssp = [],
                         target_sequence = [], target_start = None,
                         column_score = [], confidence = [], annotations = ann\<rparr>\<rparr>,
                      stream')))
      | _ \<Rightarrow> Inl (ValueError Unpack))"

text \<open>
  An update of one of the attributes of the current hit, as in
  \<^verbatim>\<open>self.confidence += value\<close>; the attribute does not exist before the first \<^verbatim>\<open>>\<close>.
\<close>

definition update_hit :: "'f state \<Rightarrow> string \<Rightarrow> ('f hit \<Rightarrow> 'f hit) \<Rightarrow> error + 'f state" where
  "update_hit self attr f =
     (case hit self of
        None \<Rightarrow> Inl (AttributeError attr)
      | Some h \<Rightarrow> Inr (self\<lparr>hit := Some (f h)\<rparr>))"

text \<open>
  Lines 212 to 216 (and 221 to 225, 237 to 241, 247 to 251): the start, the end and the
  total of a sequence or consensus line.
\<close>

definition read_range :: "string \<Rightarrow> string \<Rightarrow> string \<Rightarrow> error + (int \<times> int \<times> int)" where
  "read_range start end' total' =
     bind (int_of start) (\<lambda>s.
     bind (int_of end') (\<lambda>e.
       if \<not> prefix ''('' total' then Inl (AssertionError ''total.startswith(()'')
       else if \<not> suffix '')'' total' then Inl (AssertionError ''total.endswith())'')
       else bind (int_of (slice_1_m1 total')) (\<lambda>t. Inr (s - 1, e, t))))"

text \<open>Lines 211 to 217 and 236 to 242: a \<^verbatim>\<open>Q Consensus\<close> or \<^verbatim>\<open>T Consensus\<close> line.\<close>

definition consensus_line ::
  "'f state \<Rightarrow> string \<Rightarrow> string \<Rightarrow> (string \<Rightarrow> 'f hit \<Rightarrow> 'f hit) \<Rightarrow> error + 'f state" where
  "consensus_line self line attr add =
     (case split line of
        [key1, key2, start, consensus, end', total'] \<Rightarrow>
          bind (read_range start end' total') (\<lambda>_. update_hit self attr (add consensus))
      | _ \<Rightarrow> Inl (ValueError Unpack))"

text \<open>Lines 219 to 228: a \<^verbatim>\<open>Q\<close> sequence line.\<close>

definition query_line :: "'f state \<Rightarrow> string \<Rightarrow> error + 'f state" where
  "query_line self line =
     (case split line of
        [key1, key2, start, sequence, end', total'] \<Rightarrow>
          (case query_name self of
             None \<Rightarrow> Inl (AttributeError ''query_name'')
           | Some qname \<Rightarrow>
               if \<not> prefix key2 qname
               then Inl (AssertionError ''self.query_name.startswith(key2)'')
               else
                 bind (read_range start end' total') (\<lambda>(s, e, t).
                   update_hit (self\<lparr>query_length := Some t\<rparr>) ''query_start''
                     (\<lambda>h. h\<lparr>query_start :=
                               (if query_start h = None then Some s else query_start h),
                            query_sequence := query_sequence h @ sequence\<rparr>)))
      | _ \<Rightarrow> Inl (ValueError Unpack))"

text \<open>Lines 244 to 254: a \<^verbatim>\<open>T\<close> sequence line.\<close>

definition target_line :: "'f state \<Rightarrow> string \<Rightarrow> error + 'f state" where
  "target_line self line =
     (case split line of
        [key, name, start, sequence, end', total'] \<Rightarrow>
          if key \<noteq> ''T'' then Inl (AssertionError ''key == T'')
          else
            bind (read_range start end' total') (\<lambda>(s, e, t).
              update_hit (self\<lparr>target_name := Some name, target_length := Some t\<rparr>)
                ''target_start''
                (\<lambda>h. h\<lparr>target_start :=
                          (if target_start h = None then Some s else target_start h),
                       target_sequence := target_sequence h @ sequence\<rparr>))
      | _ \<Rightarrow> Inl (ValueError Unpack))"

text \<open>
  Lines 208 and 209 (and 230 to 234): a \<^verbatim>\<open>Q ss_pred\<close>, \<^verbatim>\<open>T ss_pred\<close> or \<^verbatim>\<open>T ss_dssp\<close>
  line.
\<close>

definition ss_line ::
  "'f state \<Rightarrow> string \<Rightarrow> string \<Rightarrow> (string \<Rightarrow> 'f hit \<Rightarrow> 'f hit) \<Rightarrow> error + 'f state" where
  "ss_line self line attr add =
     (case rsplit1 line of
        [key, val] \<Rightarrow> update_hit self attr (add val)
      | _ \<Rightarrow> Inl (ValueError Unpack))"

text \<open>Lines 205 and 206: a \<^verbatim>\<open>Confidence\<close> line.\<close>

definition confidence_line :: "'f state \<Rightarrow> string \<Rightarrow> error + 'f state" where
  "confidence_line self line =
     (case split1 line of
        [key, val] \<Rightarrow> update_hit self ''confidence'' (\<lambda>h. h\<lparr>confidence := confidence h @ val\<rparr>)
      | _ \<Rightarrow> Inl (ValueError Unpack))"

text \<open>
  Lines 199 to 203: a \<^verbatim>\<open>No\<close> line.  The record of the hit before it is yielded first,
  so it reaches the caller even when the rest of the branch raises.
\<close>

definition hit_separator ::
  "'f state \<Rightarrow> string \<Rightarrow> string list \<Rightarrow>
   'f alignment list \<times> (error + ('f state \<times> string list))" where
  "hit_separator self line stream =
     (case (if counter self > 0 then map_sum id (\<lambda>a. [a]) (create_alignment self)
            else Inr []) of
        Inl e \<Rightarrow> ([], Inl e)
      | Inr ys \<Rightarrow>
          (ys,
           let self' = self\<lparr>counter := counter self + 1\<rparr> in
           case split line of
             [key, val] \<Rightarrow>
               bind (int_of val) (\<lambda>v.
                 if v = counter self' then Inr (self', stream)
                 else Inl (AssertionError ''int(value) == self.counter''))
           | _ \<Rightarrow> Inl (ValueError Unpack)))"

text \<open>
  Lines 160 to 256: the body of the loop, for the line \<open>raw\<close> just taken from the
  stream and the stream behind it.  The result is the records yielded while the line is
  handled (none or one) and then either the exception raised or the state and the stream
  with which the loop goes on.
\<close>

definition step ::
  "(string \<Rightarrow> 'f option) \<Rightarrow> 'f state \<Rightarrow> string \<Rightarrow> string list \<Rightarrow>
   'f alignment list \<times> (error + ('f state \<times> string list))" where
  "step py_float self raw stream =
     (let line = rstrip raw;
          go_on = (\<lambda>r. ([], bind r (\<lambda>self'. Inr (self', stream))))
      in
      if line = [] then ([], Inr (self, stream))
      else if prefix ''>'' line then ([], start_hit py_float self line stream)
      else if line = ''Done!'' then
        ([], case stream of [] \<Rightarrow> Inr (self, []) | _ # _ \<Rightarrow> Inl (ValueError AdditionalData))
      else if prefix '' '' line then
        go_on (update_hit self ''column_score''
                 (\<lambda>h. h\<lparr>column_score := column_score h @ strip line\<rparr>))
      else if prefix ''No '' line then hit_separator self line stream
      else if prefix ''Confidence'' line then go_on (confidence_line self line)
      else if prefix ''Q ss_pred '' line then
        go_on (ss_line self line ''query_ss_pred''
                 (\<lambda>v h. h\<lparr>query_ss_pred := query_ss_pred h @ v\<rparr>))
      else if prefix ''Q Consensus '' line then
        go_on (consensus_line self line ''query_consensus''
                 (\<lambda>v h. h\<lparr>query_consensus := query_consensus h @ v\<rparr>))
      else if prefix ''Q '' line then go_on (query_line self line)
      else if prefix ''T ss_pred '' line then
        go_on (ss_line self line ''target_ss_pred''
                 (\<lambda>v h. h\<lparr>target_ss_pred := target_ss_pred h @ v\<rparr>))
      else if prefix ''T ss_dssp '' line then
        go_on (ss_line self line ''target_ss_dssp''
                 (\<lambda>v h. h\<lparr>target_ss_dssp := target_ss_dssp h @ v\<rparr>))
      else if prefix ''T Consensus '' line then
        go_on (consensus_line self line ''target_consensus''
                 (\<lambda>v h. h\<lparr>target_consensus := target_consensus h @ v\<rparr>))
      else if prefix ''T '' line then go_on (target_line self line)
      else ([], Inl (ValueError (FailedToParse (take 30 line)))))"

lemma step_stream:
  "step py_float self raw stream = (ys, Inr (self', stream')) \<Longrightarrow>
   length stream' \<le> length stream"
  by (auto simp: step_def Let_def bind_def start_hit_def hit_separator_def
           split: if_splits sum.splits list.splits prod.splits)

text \<open>
  Lines 257 to 261: behind the loop the last record is yielded, and then the number of
  \<^verbatim>\<open>No\<close> lines seen is compared with the number of rows of the summary table.
\<close>

definition finish ::
  "'f state \<Rightarrow> 'f alignment list \<times> (error + ('f state \<times> string list))" where
  "finish self =
     (case create_alignment self of
        Inl e \<Rightarrow> ([], Inl e)
      | Inr a \<Rightarrow>
          ([a],
           if number self \<noteq> counter self
           then Inl (ValueError (ExpectedAlignments (number self) (counter self)))
           else Inr (self, [])))"

text \<open>
  Lines 159 to 261: the loop over the stream and what follows it.  The result is the
  whole run of the generator: the records it yields, in order, and then how it ends,
  with the exception raised or with the final state and the unread stream when it
  returns.
\<close>

function parse_loop ::
  "(string \<Rightarrow> 'f option) \<Rightarrow> 'f state \<Rightarrow> string list \<Rightarrow>
   'f alignment list \<times> (error + ('f state \<times> string list))" where
  "parse_loop py_float self [] = finish self"
| "parse_loop py_float self (raw # stream) =
     (case step py_float self raw stream of
        (ys, Inl e) \<Rightarrow> (ys, Inl e)
      | (ys, Inr (self', stream')) \<Rightarrow>
          (case parse_loop py_float self' stream' of (zs, r) \<Rightarrow> (ys @ zs, r)))"
  by pat_completeness auto

termination
  by (relation "measure (\<lambda>(py_float, self, stream). length stream)")
     (auto dest!: step_stream [OF sym])

text \<open>Lines 157 to 261: the generator \<^verbatim>\<open>parse\<close>.\<close>

definition parse ::
  "(string \<Rightarrow> 'f option) \<Rightarrow> 'f state \<Rightarrow> string list \<Rightarrow>
   'f alignment list \<times> (error + ('f state \<times> string list))" where
  "parse py_float self stream =
     (if number self = 0 then ([], Inr (self, stream)) else parse_loop py_float self stream)"

section \<open>A small report, used to instantiate the theorems\<close>

definition text_line :: "string \<Rightarrow> string" where
  "text_line s = s @ [CHR 0x0A]"

text \<open>
  The state that \<^const>\<open>init\<close> reaches on a header with the query \<^verbatim>\<open>qname\<close>, three match
  columns and one row in the summary table.  In the examples the floats are the
  integer literals: \<^const>\<open>py_int\<close> stands for \<^verbatim>\<open>float\<close>.
\<close>

definition example_header :: "string list" where
  "example_header = map text_line
     [''Query         qname some description'',
      ''Match_columns 3'',
      ''No_of_seqs    1 out of 2'',
      ''Neff          1'',
      ''Searched_HMMs 10'',
      ''Date          Mon'',
      ''Command       hhsearch -i x'',
      [],
      '' No Hit                             Prob E-value P-value  Score    SS Cols Query HMM  Template HMM'',
      ''  1 2uvo_A desc   99 1 1 10 0 3 1-3 1-3 (5)'',
      []]"

definition example_state :: "int state" where
  "example_state =
     \<lparr>query_name = Some ''qname some description'',
      metadata = empty_metadata\<lparr>Match_columns := Some 3, No_of_seqs := Some (1, 2),
        Neff := Some 1, Searched_HMMs := Some 10, Rundate := Some ''Mon'',
        Command_line := Some ''hhsearch -i x''\<rparr>,
      number = 1, counter = 0, query_length = None, target_name = None,
      target_length = None, hit = None\<rparr>"

text \<open>One hit whose alignment is wrapped into two blocks.\<close>

definition example_hit :: "string list" where
  "example_hit = map text_line
     [''No 1'',
      ''>2uvo_A desc text'',
      ''Probab=99 E-value=1 Aligned_cols=3 Identities=100%'',
      [],
      ''Q ss_pred             CC'',
      ''Q qname           1 AB   2 (3)'',
      ''Q Consensus       1 ab    2 (3)'',
      ''                  ||'',
      ''T Consensus       1 ab    2 (5)'',
      ''T 2uvo_A          1 AB    2 (5)'',
      ''T ss_dssp           CC'',
      ''T ss_pred           CC'',
      ''Confidence          99'',
      [],
      ''Q ss_pred             -'',
      ''Q qname           3 -   2 (3)'',
      ''Q Consensus       3 -    2 (3)'',
      ''                  '',
      ''T Consensus       3 c    3 (5)'',
      ''T 2uvo_A          3 C    3 (5)'',
      ''T ss_dssp           C'',
      ''T ss_pred           C'',
      ''Confidence          9'',
      [],
      ''Done!'']"

text \<open>
  The state in which \<^const>\<open>parse\<close> ends on \<^const>\<open>example_hit\<close>: the attributes of the hit
  after its two blocks.
\<close>

definition example_final :: "int state" where
  "example_final =
     example_state\<lparr>counter := 1, query_length := Some 3, target_name := Some ''2uvo_A'',
       target_length := Some 5,
       hit := Some
         \<lparr>hmm_name = ''2uvo_A'', hmm_description = ''desc text'',
          query_ss_pred = ''CC-'', query_consensus = ''ab-'', query_sequence = ''AB-'',
          query_start = Some 0,
          target_ss_pred = ''CCC'', target_consensus = ''abc'', target_ss_dssp = ''CCC'',
          target_sequence = ''ABC'', target_start = Some 0,
          column_score = ''||'', confidence = ''999'',
          annotations = [(''Probab'', 99), (''E-value'', 1), (''Identities'', 100)]\<rparr>\<rparr>"

section \<open>The kinds of line that the loop tells apart\<close>

text \<open>
  The branch that \<^const>\<open>step\<close> takes depends on the line without its trailing
  whitespace.  These predicates name the lines of five branches, as the chain of tests
  of lines 161 to 243 selects them.
\<close>

definition is_hit_header :: "string \<Rightarrow> bool" where
  "is_hit_header raw \<longleftrightarrow> prefix ''>'' (rstrip raw)"

definition is_sentinel :: "string \<Rightarrow> bool" where
  "is_sentinel raw \<longleftrightarrow> rstrip raw = ''Done!''"

definition is_separator :: "string \<Rightarrow> bool" where
  "is_separator raw \<longleftrightarrow> prefix ''No '' (rstrip raw)"

definition is_query_line :: "string \<Rightarrow> bool" where
  "is_query_line raw \<longleftrightarrow>
     prefix ''Q '' (rstrip raw) \<and> \<not> prefix ''Q ss_pred '' (rstrip raw) \<and>
     \<not> prefix ''Q Consensus '' (rstrip raw)"

definition is_target_line :: "string \<Rightarrow> bool" where
  "is_target_line raw \<longleftrightarrow>
     prefix ''T '' (rstrip raw) \<and> \<not> prefix ''T ss_pred '' (rstrip raw) \<and>
     \<not> prefix ''T ss_dssp '' (rstrip raw) \<and> \<not> prefix ''T Consensus '' (rstrip raw)"

section \<open>What the claims speak of\<close>



text \<open>
  The keys that the header loop accepts, the header lines of a stream (those before
  the first blank line) and the key of a header line (its first word).
\<close>

definition known_keys :: "string list" where
  "known_keys =
     [''Query'', ''Match_columns'', ''No_of_seqs'', ''Neff'', ''Template_Neff'',
      ''Searched_HMMs'', ''Date'', ''Command'']"

definition header_lines :: "string list \<Rightarrow> string list" where
  "header_lines stream = takeWhile (\<lambda>raw. strip raw \<noteq> []) stream"

definition key_token :: "string \<Rightarrow> string" where
  "key_token raw = takeWhile (\<lambda>c. \<not> isspace c) (strip raw)"

text \<open>
  Constructing the iterator on a stream and drawing every alignment from it: the
  records yielded and how the iteration ends.  When \<^verbatim>\<open>__init__\<close> raises there is no
  iterator and no record.
\<close>

definition alignments ::
  "(string \<Rightarrow> 'f option) \<Rightarrow> string list \<Rightarrow>
   'f alignment list \<times> (error + ('f state \<times> string list))" where
  "alignments py_float stream =
     (case init py_float stream of
        Inl e \<Rightarrow> ([], Inl e)
      | Inr (self, rest) \<Rightarrow> parse py_float self rest)"

text \<open>
  A track behind \<open>start\<close> blanks and filled with blanks up to \<open>total'\<close> characters,
  as the claims describe it.
\<close>

definition padded :: "int \<Rightarrow> int \<Rightarrow> string \<Rightarrow> string" where
  "padded start total' s =
     replicate (nat start) (CHR '' '') @ s @
     replicate (nat (total' - int (nat start + length s))) (CHR '' '')"

text \<open>A hit whose query consensus has four residues although the query total is three.\<close>

definition overlong_hit :: "string list" where
  "overlong_hit = map text_line
     [''No 1'',
      ''>2uvo_A desc text'',
      ''Probab=99'',
      ''Q qname           1 AB   2 (3)'',
      ''Q Consensus       1 abcd   4 (3)'',
      ''T Consensus       1 ab    2 (5)'',
      ''T 2uvo_A          1 AB    2 (5)'',
      ''Done!'']"

text \<open>
  The number of records that the loop has yielded when the counter of \<^verbatim>\<open>No\<close> lines is
  \<open>c\<close>: the record of a hit is yielded at the \<^verbatim>\<open>No\<close> line of the next one.
\<close>

definition yielded_before :: "int \<Rightarrow> int" where
  "yielded_before c = (if c \<le> 0 then 0 else c - 1)"

text \<open>
  The lines inside the blocks of a hit: every line that neither starts a hit nor
  separates two hits nor is the sentinel.
\<close>

definition is_block_line :: "string \<Rightarrow> bool" where
  "is_block_line raw \<longleftrightarrow> \<not> is_hit_header raw \<and> \<not> is_sentinel raw \<and> \<not> is_separator raw"

text \<open>
  The sequence segment and the start offset (\<^verbatim>\<open>int(start) - 1\<close>) that a \<^verbatim>\<open>Q\<close> or \<^verbatim>\<open>T\<close>
  sequence line carries: the fourth and the third of its six words.
\<close>

definition segment :: "string \<Rightarrow> string" where
  "segment raw =
     (case split (rstrip raw) of
        [key1, key2, start, sequence, end', total'] \<Rightarrow> sequence
      | _ \<Rightarrow> [])"

definition start_offset :: "string \<Rightarrow> int option" where
  "start_offset raw =
     (case split (rstrip raw) of
        [key1, key2, start, sequence, end', total'] \<Rightarrow> map_option (\<lambda>v. v - 1) (py_int start)
      | _ \<Rightarrow> None)"

text \<open>
  For the lines of the blocks of one hit and a kind of line: the concatenation of the
  segments of the lines of that kind, in order, and the start offset of the first such
  line.
\<close>

definition track :: "(string \<Rightarrow> bool) \<Rightarrow> string list \<Rightarrow> string" where
  "track kind ls = concat (map segment (filter kind ls))"

definition first_start :: "(string \<Rightarrow> bool) \<Rightarrow> string list \<Rightarrow> int option" where
  "first_start kind ls = (case filter kind ls of [] \<Rightarrow> None | raw # _ \<Rightarrow> start_offset raw)"

text \<open>
  \<open>extends h ls h'\<close>: the sequences of \<open>h'\<close> are those of \<open>h\<close> followed by the tracks of
  \<open>ls\<close>, and each start offset of \<open>h'\<close> is that of \<open>h\<close> when it was set and the first
  start offset of \<open>ls\<close> otherwise.
\<close>

definition extends :: "'f hit \<Rightarrow> string list \<Rightarrow> 'f hit \<Rightarrow> bool" where
  "extends h ls h' \<longleftrightarrow>
     query_sequence h' = query_sequence h @ track is_query_line ls \<and>
     target_sequence h' = target_sequence h @ track is_target_line ls \<and>
     query_start h' =
       (case query_start h of None \<Rightarrow> first_start is_query_line ls | Some s \<Rightarrow> Some s) \<and>
     target_start h' =
       (case target_start h of None \<Rightarrow> first_start is_target_line ls | Some s \<Rightarrow> Some s)"

text \<open>
  The text of one hit: its \<^verbatim>\<open>No\<close> line, its \<^verbatim>\<open>>\<close> line, the line of annotations behind
  it and the lines of its blocks.
\<close>

type_synonym hit_lines = "string \<times> string \<times> string \<times> string list"

definition hit_text :: "hit_lines \<Rightarrow> string list" where
  "hit_text hl = (case hl of (no, gt, kv, ls) \<Rightarrow> no # gt # kv # ls)"

definition blocks :: "hit_lines \<Rightarrow> string list" where
  "blocks hl = (case hl of (no, gt, kv, ls) \<Rightarrow> ls)"

definition well_shaped :: "hit_lines \<Rightarrow> bool" where
  "well_shaped hl \<longleftrightarrow>
     (case hl of (no, gt, kv, ls) \<Rightarrow>
        is_separator no \<and> is_hit_header gt \<and> list_all is_block_line ls)"

text \<open>
  \<open>tracks_of self ls\<close>: the gapped sequences and the start offsets accumulated in the
  state are the tracks and the first start offsets of the block lines \<open>ls\<close>.
  \<open>built_from a ls\<close>: the record \<open>a\<close> was built in such a state, and so carries the
  tracks without their gaps at the first start offsets.
\<close>

definition tracks_of :: "'f state \<Rightarrow> string list \<Rightarrow> bool" where
  "tracks_of self ls \<longleftrightarrow>
     (\<exists>h. hit self = Some h \<and>
        query_sequence h = track is_query_line ls \<and>
        target_sequence h = track is_target_line ls \<and>
        query_start h = first_start is_query_line ls \<and>
        target_start h = first_start is_target_line ls)"

definition built_from :: "'f alignment \<Rightarrow> string list \<Rightarrow> bool" where
  "built_from a ls \<longleftrightarrow>
     (\<exists>self qstart tstart.
        create_alignment self = Inr a \<and> tracks_of self ls \<and>
        first_start is_query_line ls = Some qstart \<and>
        first_start is_target_line ls = Some tstart \<and>
        seq_data (query a) = (qstart, remove_char (CHR ''-'') (track is_query_line ls)) \<and>
        seq_data (target a) = (tstart, remove_char (CHR ''-'') (track is_target_line ls)))"

text \<open>The parts of \<^const>\<open>example_hit\<close>.\<close>

definition example_hit_lines :: hit_lines where
  "example_hit_lines =
     (text_line ''No 1'',
      text_line ''>2uvo_A desc text'',
      text_line ''Probab=99 E-value=1 Aligned_cols=3 Identities=100%'',
      drop 3 (butlast example_hit))"

text \<open>
  The total that a \<^verbatim>\<open>Q\<close> or \<^verbatim>\<open>T\<close> sequence line declares (the number between the
  parentheses of its sixth word), and for the lines of the blocks of one hit and a kind
  of line the total of the last line of that kind.
\<close>

definition total_of :: "string \<Rightarrow> int option" where
  "total_of raw =
     (case split (rstrip raw) of
        [key1, key2, start, sequence, end', total'] \<Rightarrow> py_int (slice_1_m1 total')
      | _ \<Rightarrow> None)"

definition last_total :: "(string \<Rightarrow> bool) \<Rightarrow> string list \<Rightarrow> int option" where
  "last_total kind ls = (case rev (filter kind ls) of [] \<Rightarrow> None | raw # _ \<Rightarrow> total_of raw)"

text \<open>
  \<open>lengths_of self ls\<close>: where the block lines \<open>ls\<close> have a \<^verbatim>\<open>Q\<close> (a \<^verbatim>\<open>T\<close>) sequence line,
  the query (target) length stored in the state is the total of the last such line.
  \<open>totals_used a ls\<close>: the lengths of the two sequences of the record \<open>a\<close> are the totals
  of the last \<^verbatim>\<open>Q\<close> and the last \<^verbatim>\<open>T\<close> sequence line of \<open>ls\<close>.
\<close>

definition lengths_of :: "'f state \<Rightarrow> string list \<Rightarrow> bool" where
  "lengths_of self ls \<longleftrightarrow>
     (filter is_query_line ls \<noteq> [] \<longrightarrow> query_length self = last_total is_query_line ls) \<and>
     (filter is_target_line ls \<noteq> [] \<longrightarrow> target_length self = last_total is_target_line ls)"

definition totals_used :: "'f alignment \<Rightarrow> string list \<Rightarrow> bool" where
  "totals_used a ls \<longleftrightarrow>
     last_total is_query_line ls = Some (seq_length (query a)) \<and>
     last_total is_target_line ls = Some (seq_length (target a))"



text \<open>
  \<open>lengths_after self ls self'\<close>: the lengths stored in \<open>self'\<close> are those of \<open>self\<close>,
  replaced by the last totals of the block lines \<open>ls\<close> where these have a sequence line
  of the kind.
\<close>

definition lengths_after :: "'f state \<Rightarrow> string list \<Rightarrow> 'f state \<Rightarrow> bool" where
  "lengths_after self ls self' \<longleftrightarrow>
     query_length self' =
       (if filter is_query_line ls = [] then query_length self
        else last_total is_query_line ls) \<and>
     target_length self' =
       (if filter is_target_line ls = [] then target_length self
        else last_total is_target_line ls)"

section \<open>What a step and the loop leave unchanged\<close>

lemma init_example: "init py_int example_header = Inr (example_state, [])"
  by code_simp

lemma parse_example_yields: "fst (parse py_int example_state example_hit) \<noteq> []"
  by code_simp

lemma step_yield:
  "step py_float self raw stream = (ys, r) \<Longrightarrow> a \<in> set ys \<Longrightarrow> create_alignment self = Inr a"
  by (auto simp: step_def Let_def hit_separator_def map_sum_def
           split: if_splits sum.splits)

lemma step_metadata:
  "step py_float self raw stream = (ys, Inr (self', stream')) \<Longrightarrow>
   metadata self' = metadata self \<and> number self' = number self \<and>
   query_name self' = query_name self"
  unfolding step_def Let_def
  by (auto simp: Let_def bind_def start_hit_def hit_separator_def confidence_line_def
       ss_line_def consensus_line_def query_line_def target_line_def update_hit_def
       split: if_splits sum.splits list.splits option.splits prod.splits)

lemma parse_loop_yield:
  "parse_loop py_float self stream = (ys, r) \<Longrightarrow> a \<in> set ys \<Longrightarrow>
   \<exists>self'. create_alignment self' = Inr a \<and> metadata self' = metadata self
      \<and> query_name self' = query_name self"
proof (induction py_float self stream arbitrary: ys r rule: parse_loop.induct)
  case (1 py_float self)
  then show ?case
    by (auto simp: finish_def split: sum.splits)
next
  case (2 py_float self raw stream)
  obtain ys1 r1 where st: "step py_float self raw stream = (ys1, r1)"
    by (cases "step py_float self raw stream")
  show ?case
  proof (cases r1)
    case (Inl e)
    with st "2.prems" have "a \<in> set ys1" by simp
    with st show ?thesis by (blast dest: step_yield)
  next
    case (Inr p)
    obtain self1 stream1 where p: "p = (self1, stream1)" by (cases p)
    obtain zs r2 where pl: "parse_loop py_float self1 stream1 = (zs, r2)"
      by (cases "parse_loop py_float self1 stream1")
    from st Inr p pl "2.prems" have ys: "ys = ys1 @ zs" by simp
    from st Inr p have md: "metadata self1 = metadata self" "query_name self1 = query_name self"
      using step_metadata by blast+
    from ys "2.prems" consider "a \<in> set ys1" | "a \<in> set zs" by auto
    then show ?thesis
    proof cases
      case 1
      with st show ?thesis by (blast dest: step_yield)
    next
      case 2
      from "2.IH"[OF st[symmetric] Inr p[symmetric] pl 2] md show ?thesis by auto
    qed
  qed
qed

lemma parse_yield:
  "parse py_float self stream = (ys, r) \<Longrightarrow> a \<in> set ys \<Longrightarrow>
   \<exists>self'. create_alignment self' = Inr a \<and> metadata self' = metadata self
      \<and> query_name self' = query_name self"
  by (auto simp: parse_def split: if_splits dest: parse_loop_yield)

lemma new_seq_Inr:
  "new_seq start residues len = Inr d \<Longrightarrow>
   d = (start, residues) \<and> 0 \<le> start \<and> start + int (length residues) \<le> len"
  by (auto simp: new_seq_def split: if_splits)

lemma set_letter_annotation_Inr:
  "set_letter_annotation len key tr d = Inr d' \<Longrightarrow>
   d' = AList.update key tr d \<and> int (length tr) = len"
  by (auto simp: set_letter_annotation_def split: if_splits)

lemma bind_Inr: "bind m f = Inr y \<Longrightarrow> \<exists>x. m = Inr x \<and> f x = Inr y"
  by (cases m) (simp_all add: bind_def)

lemma create_alignmentE:
  assumes "create_alignment self = Inr a"
  obtains qname tname h qstart tstart where
    "query_name self = Some qname" "target_name self = Some tname"
    "query_length self = Some (seq_length (query a))"
    "Match_columns (metadata self) = Some (seq_length (query a))"
    "target_length self = Some (seq_length (target a))"
    "hit self = Some h" "length (target_sequence h) = length (query_sequence h)"
    "query_start h = Some qstart" "target_start h = Some tstart"
    "seq_data (query a) = (qstart, remove_char (CHR ''-'') (query_sequence h))"
    "seq_data (target a) = (tstart, remove_char (CHR ''-'') (target_sequence h))"
    "letter_annotations (query a) =
       [(''Consensus'', pad_track qstart (seq_length (query a))
                          (remove_char (CHR ''-'') (query_consensus h))),
        (''ss_pred'', pad_track qstart (seq_length (query a))
                        (remove_char (CHR ''-'') (query_ss_pred h)))]"
    "letter_annotations (target a) =
       [(''Consensus'', pad_track tstart (seq_length (target a))
                          (remove_char (CHR ''-'') (target_consensus h))),
        (''ss_dssp'', pad_track tstart (seq_length (target a))
                        (remove_char (CHR ''-'') (target_ss_dssp h))),
        (''ss_pred'', pad_track tstart (seq_length (target a))
                        (remove_char (CHR ''-'') (target_ss_pred h))),
        (''Confidence'', pad_track tstart (seq_length (target a))
                           (remove_char (CHR '' '') (confidence h)))]"
    "\<forall>(key, t) \<in> set (letter_annotations (query a)). int (length t) = seq_length (query a)"
    "\<forall>(key, t) \<in> set (letter_annotations (target a)). int (length t) = seq_length (target a)"
    "alignment_annotations a = annotations h"
proof -
  from assms obtain qname where qn: "query_name self = Some qname"
    by (auto simp: create_alignment_def split: option.splits)
  from assms qn obtain qlen where ql: "query_length self = Some qlen"
    by (auto simp: create_alignment_def split: option.splits)
  from assms qn ql have mc: "Match_columns (metadata self) = Some qlen"
    by (auto simp: create_alignment_def split: option.splits if_splits)
  from assms qn ql mc obtain tname where tn: "target_name self = Some tname"
    by (auto simp: create_alignment_def split: option.splits)
  from assms qn ql mc tn obtain h where h: "hit self = Some h"
    by (auto simp: create_alignment_def split: option.splits)
  from assms qn ql mc tn h have len: "length (target_sequence h) = length (query_sequence h)"
    and ne: "target_sequence h \<noteq> []"
    by (auto simp: create_alignment_def split: if_splits)
  from assms qn ql mc tn h len ne obtain tstart where ts: "target_start h = Some tstart"
    by (auto simp: create_alignment_def split: option.splits)
  from assms qn ql mc tn h len ne ts obtain qstart where qs: "query_start h = Some qstart"
    by (auto simp: create_alignment_def split: option.splits)
  let ?rest = "\<lambda>qdata.
      case target_length self of None \<Rightarrow> Inl (AttributeError ''target_length'') | Some tlen \<Rightarrow>
      bind (new_seq tstart (remove_char (CHR ''-'') (target_sequence h)) tlen) (\<lambda>tdata.
      bind (set_letter_annotation qlen ''Consensus''
              (pad_track qstart qlen (remove_char (CHR ''-'') (query_consensus h))) [])
        (\<lambda>qla1.
      bind (set_letter_annotation tlen ''Consensus''
              (pad_track tstart tlen (remove_char (CHR ''-'') (target_consensus h))) [])
        (\<lambda>tla1.
      bind (set_letter_annotation tlen ''ss_dssp''
              (pad_track tstart tlen (remove_char (CHR ''-'') (target_ss_dssp h))) tla1)
        (\<lambda>tla2.
      bind (set_letter_annotation qlen ''ss_pred''
              (pad_track qstart qlen (remove_char (CHR ''-'') (query_ss_pred h))) qla1)
        (\<lambda>qla2.
      bind (set_letter_annotation tlen ''ss_pred''
              (pad_track tstart tlen (remove_char (CHR ''-'') (target_ss_pred h))) tla2)
        (\<lambda>tla3.
      bind (set_letter_annotation tlen ''Confidence''
              (pad_track tstart tlen (remove_char (CHR '' '') (confidence h))) tla3)
        (\<lambda>tla4.
      Inr \<lparr>target =
             \<lparr>seq_id = tname, seq_data = tdata, seq_length = tlen,
              seq_annotations =
                [(''hmm_name'', hmm_name h), (''hmm_description'', hmm_description h)],
              letter_annotations = tla4\<rparr>,
            query =
             \<lparr>seq_id = qname, seq_data = qdata, seq_length = qlen,
              seq_annotations = [], letter_annotations = qla2\<rparr>,
            coordinates =
              map (\<lambda>(i, j). (i + tstart, j + qstart))
                (infer_coordinates (target_sequence h) (query_sequence h)),
            alignment_annotations = annotations h,
            column_annotations = [(''column score'', column_score h)]\<rparr>)))))))"
  from assms qn ql mc tn h len ne ts qs
  have "bind (new_seq qstart (remove_char (CHR ''-'') (query_sequence h)) qlen) ?rest = Inr a"
    by (simp add: create_alignment_def)
  then obtain qdata where qd: "new_seq qstart (remove_char (CHR ''-'') (query_sequence h)) qlen = Inr qdata"
    and r1: "?rest qdata = Inr a"
    by (blast dest: bind_Inr)
  from r1 obtain tlen where tl: "target_length self = Some tlen"
    by (auto split: option.splits)
  from r1 tl obtain tdata qla1 tla1 tla2 qla2 tla3 tla4 where
    td: "new_seq tstart (remove_char (CHR ''-'') (target_sequence h)) tlen = Inr tdata"
    and l1: "set_letter_annotation qlen ''Consensus''
              (pad_track qstart qlen (remove_char (CHR ''-'') (query_consensus h))) [] = Inr qla1"
    and l2: "set_letter_annotation tlen ''Consensus''
              (pad_track tstart tlen (remove_char (CHR ''-'') (target_consensus h))) [] = Inr tla1"
    and l3: "set_letter_annotation tlen ''ss_dssp''
              (pad_track tstart tlen (remove_char (CHR ''-'') (target_ss_dssp h))) tla1 = Inr tla2"
    and l4: "set_letter_annotation qlen ''ss_pred''
              (pad_track qstart qlen (remove_char (CHR ''-'') (query_ss_pred h))) qla1 = Inr qla2"
    and l5: "set_letter_annotation tlen ''ss_pred''
              (pad_track tstart tlen (remove_char (CHR ''-'') (target_ss_pred h))) tla2 = Inr tla3"
    and l6: "set_letter_annotation tlen ''Confidence''
              (pad_track tstart tlen (remove_char (CHR '' '') (confidence h))) tla3 = Inr tla4"
    and a: "a = \<lparr>target =
             \<lparr>seq_id = tname, seq_data = tdata, seq_length = tlen,
              seq_annotations =
                [(''hmm_name'', hmm_name h), (''hmm_description'', hmm_description h)],
              letter_annotations = tla4\<rparr>,
            query =
             \<lparr>seq_id = qname, seq_data = qdata, seq_length = qlen,
              seq_annotations = [], letter_annotations = qla2\<rparr>,
            coordinates =
              map (\<lambda>(i, j). (i + tstart, j + qstart))
                (infer_coordinates (target_sequence h) (query_sequence h)),
            alignment_annotations = annotations h,
            column_annotations = [(''column score'', column_score h)]\<rparr>"
    by (auto dest!: bind_Inr)
  note q = new_seq_Inr[OF qd] and t = new_seq_Inr[OF td]
  note s1 = set_letter_annotation_Inr[OF l1] and s2 = set_letter_annotation_Inr[OF l2]
    and s3 = set_letter_annotation_Inr[OF l3] and s4 = set_letter_annotation_Inr[OF l4]
    and s5 = set_letter_annotation_Inr[OF l5] and s6 = set_letter_annotation_Inr[OF l6]
  show thesis
  proof (rule that[OF qn tn _ _ _ h len qs ts])
    show "query_length self = Some (seq_length (query a))" using ql a by simp
    show "Match_columns (metadata self) = Some (seq_length (query a))" using mc a by simp
    show "target_length self = Some (seq_length (target a))" using tl a by simp
    show "seq_data (query a) = (qstart, remove_char (CHR ''-'') (query_sequence h))"
      using q a by simp
    show "seq_data (target a) = (tstart, remove_char (CHR ''-'') (target_sequence h))"
      using t a by simp
    show qa: "letter_annotations (query a) =
       [(''Consensus'', pad_track qstart (seq_length (query a))
                          (remove_char (CHR ''-'') (query_consensus h))),
        (''ss_pred'', pad_track qstart (seq_length (query a))
                        (remove_char (CHR ''-'') (query_ss_pred h)))]"
      using s1 s4 a by simp
    show ta: "letter_annotations (target a) =
       [(''Consensus'', pad_track tstart (seq_length (target a))
                          (remove_char (CHR ''-'') (target_consensus h))),
        (''ss_dssp'', pad_track tstart (seq_length (target a))
                        (remove_char (CHR ''-'') (target_ss_dssp h))),
        (''ss_pred'', pad_track tstart (seq_length (target a))
                        (remove_char (CHR ''-'') (target_ss_pred h))),
        (''Confidence'', pad_track tstart (seq_length (target a))
                           (remove_char (CHR '' '') (confidence h)))]"
      using s2 s3 s5 s6 a by simp
    show "\<forall>(key, t) \<in> set (letter_annotations (query a)). int (length t) = seq_length (query a)"
      unfolding qa using s1 s4 a by simp
    show "\<forall>(key, t) \<in> set (letter_annotations (target a)). int (length t) = seq_length (target a)"
      unfolding ta using s2 s3 s5 s6 a by simp
    show "alignment_annotations a = annotations h" using a by simp
  qed
qed

lemma create_alignment_Inl:
  "create_alignment self = Inl e \<Longrightarrow>
   e \<noteq> ValueError AdditionalData \<and>
   (e = AssertionError ''len(target_sequence) == len(query_sequence)'' \<longrightarrow>
      query_name self \<noteq> None \<and> query_length self \<noteq> None \<and>
      query_length self = Match_columns (metadata self) \<and> target_name self \<noteq> None \<and>
      (\<exists>h. hit self = Some h \<and> length (target_sequence h) \<noteq> length (query_sequence h)))"
  by (auto simp: create_alignment_def bind_def new_seq_def set_letter_annotation_def
           split: option.splits if_splits sum.splits)

lemma create_alignment_Inr:
  "create_alignment self = Inr a \<Longrightarrow>
   query_length self = Some (seq_length (query a)) \<and>
   Match_columns (metadata self) = Some (seq_length (query a)) \<and>
   target_length self = Some (seq_length (target a))"
  by (erule create_alignmentE) simp

section \<open>The query total and the header's match columns\<close>

text \<open>
  Claim C10.  Every record that \<^const>\<open>parse\<close> yields was built by
  \<^const>\<open>create_alignment\<close> in a state whose \<open>query_length\<close> (the total of the last
  \<^verbatim>\<open>Q\<close> sequence line) is the length given to the record's query, and that length is
  the \<^verbatim>\<open>Match_columns\<close> value of the header.  Building a record while the query total
  is not the \<^verbatim>\<open>Match_columns\<close> value fails, and it fails at the assertion of line 104
  when the query name and the \<^verbatim>\<open>Match_columns\<close> entry exist.
\<close>

theorem query_total_is_match_columns:
  "(parse py_float self stream = (ys, r) \<and> a \<in> set ys \<longrightarrow>
      (\<exists>self'. create_alignment self' = Inr a \<and>
         query_length self' = Some (seq_length (query a))) \<and>
      Match_columns (metadata self) = Some (seq_length (query a))) \<and>
   (query_length self = Some n \<and> Match_columns (metadata self) \<noteq> Some n \<longrightarrow>
      (\<exists>e. create_alignment self = Inl e)) \<and>
   (query_name self \<noteq> None \<and> query_length self = Some n \<and>
    Match_columns (metadata self) = Some m \<and> n \<noteq> m \<longrightarrow>
      create_alignment self =
        Inl (AssertionError ''query_length == self.metadata[Match_columns]''))"
proof (intro conjI impI)
  assume h: "parse py_float self stream = (ys, r) \<and> a \<in> set ys"
  then obtain self' where s: "create_alignment self' = Inr a" "metadata self' = metadata self"
    using parse_yield by blast
  from create_alignment_Inr[OF s(1)] s
  show "\<exists>self'. create_alignment self' = Inr a \<and>
         query_length self' = Some (seq_length (query a))"
    and "Match_columns (metadata self) = Some (seq_length (query a))"
    by auto
next
  assume "query_length self = Some n \<and> Match_columns (metadata self) \<noteq> Some n"
  then show "\<exists>e. create_alignment self = Inl e"
    by (cases "create_alignment self") (auto dest: create_alignment_Inr)
next
  assume "query_name self \<noteq> None \<and> query_length self = Some n \<and>
    Match_columns (metadata self) = Some m \<and> n \<noteq> m"
  then show "create_alignment self =
        Inl (AssertionError ''query_length == self.metadata[Match_columns]'')"
    by (auto simp: create_alignment_def)
qed

theorem query_total_is_match_columns_witness:
  "Match_columns (metadata example_state) =
     Some (seq_length (query (hd (fst (parse py_int example_state example_hit))))) \<and>
   create_alignment (example_state\<lparr>query_length := Some 5\<rparr>) =
     Inl (AssertionError ''query_length == self.metadata[Match_columns]'')"
proof -
  let ?p = "parse py_int example_state example_hit"
  let ?bad = "example_state\<lparr>query_length := Some 5\<rparr>"
  have 1: "?p = (fst ?p, snd ?p) \<and> hd (fst ?p) \<in> set (fst ?p)"
    using parse_example_yields by simp
  have 2: "query_name ?bad \<noteq> None \<and> query_length ?bad = Some 5 \<and>
      Match_columns (metadata ?bad) = Some 3 \<and> (5::int) \<noteq> 3"
    by (simp add: example_state_def)
  from query_total_is_match_columns
         [of py_int example_state example_hit "fst ?p" "snd ?p" "hd (fst ?p)" 5 3] 1
  have "Match_columns (metadata example_state) = Some (seq_length (query (hd (fst ?p))))"
    by blast
  moreover
  from query_total_is_match_columns
         [of py_int ?bad example_hit "fst ?p" "snd ?p" "hd (fst ?p)" 5 3] 2
  have "create_alignment ?bad =
     Inl (AssertionError ''query_length == self.metadata[Match_columns]'')"
    by blast
  ultimately show ?thesis by simp
qed

section \<open>The branches of a step\<close>

lemma parse_example_final:
  "snd (parse py_int example_state example_hit) = Inr (example_final, [])"
  by code_simp

lemma step_sentinel:
  "rstrip raw = ''Done!'' \<Longrightarrow>
   step py_float self raw stream =
     ([], case stream of [] \<Rightarrow> Inr (self, []) | _ # _ \<Rightarrow> Inl (ValueError AdditionalData))"
  by (simp add: step_def)

lemma step_query_line:
  assumes "is_query_line raw"
  shows "step py_float self raw stream =
     ([], bind (query_line self (rstrip raw)) (\<lambda>self'. Inr (self', stream)))"
proof -
  from assms obtain r where r: "rstrip raw = ''Q '' @ r"
    by (auto simp: is_query_line_def prefix_def)
  from assms have n: "\<not> prefix ''Q ss_pred '' (rstrip raw)" "\<not> prefix ''Q Consensus '' (rstrip raw)"
    by (auto simp: is_query_line_def)
  show ?thesis
    unfolding step_def Let_def using n by (simp add: r)
qed

lemma step_target_line:
  assumes "is_target_line raw"
  shows "step py_float self raw stream =
     ([], bind (target_line self (rstrip raw)) (\<lambda>self'. Inr (self', stream)))"
proof -
  from assms obtain r where r: "rstrip raw = ''T '' @ r"
    by (auto simp: is_target_line_def prefix_def)
  from assms have n: "\<not> prefix ''T ss_pred '' (rstrip raw)" "\<not> prefix ''T ss_dssp '' (rstrip raw)"
      "\<not> prefix ''T Consensus '' (rstrip raw)"
    by (auto simp: is_target_line_def)
  show ?thesis
    unfolding step_def Let_def using n by (simp add: r)
qed

lemma read_range_Inr:
  "read_range start end' total' = Inr (s, e, t) \<Longrightarrow> py_int (slice_1_m1 total') = Some t"
  by (auto simp: read_range_def bind_def int_of_def split: sum.splits if_splits option.splits)

lemma finish_not_additional:
  "snd (finish self) \<noteq> Inl (ValueError AdditionalData)"
  by (auto simp: finish_def split: sum.splits dest: create_alignment_Inl)

section \<open>The sentinel\<close>

text \<open>
  Claim C4, as amended.  When the loop meets a \<^verbatim>\<open>Done!\<close> line, it raises the
  \<^verbatim>\<open>ValueError\<close> of line 193 if and only if the stream holds any further line, blank
  or not; when the stream ends with the \<^verbatim>\<open>Done!\<close> line, the loop is left and the last
  record is built.
\<close>

theorem sentinel_then_any_line_fails:
  "rstrip raw = ''Done!'' \<Longrightarrow>
   parse_loop py_float self (raw # stream) =
     (if stream = [] then finish self else ([], Inl (ValueError AdditionalData))) \<and>
   (snd (parse_loop py_float self (raw # stream)) = Inl (ValueError AdditionalData)
      \<longleftrightarrow> stream \<noteq> [])"
  by (cases stream) (simp_all add: step_sentinel finish_not_additional)

theorem sentinel_then_any_line_fails_witness:
  "rstrip (text_line ''Done!'') = ''Done!'' \<and>
   parse_loop py_int example_final [text_line ''Done!'', text_line ''No 2''] =
     ([], Inl (ValueError AdditionalData)) \<and>
   parse_loop py_int example_final [text_line ''Done!''] = finish example_final"
proof -
  have r: "rstrip (text_line ''Done!'') = ''Done!''"
    by (simp add: rstrip_def text_line_def isspace_def)
  from sentinel_then_any_line_fails[OF r, of py_int example_final "[text_line ''No 2'']"]
       sentinel_then_any_line_fails[OF r, of py_int example_final "[]"] r
  show ?thesis by simp
qed

text \<open>
  Claim C4 as stated fails: a blank line behind \<^verbatim>\<open>Done!\<close> raises the same error.
\<close>

theorem blank_after_sentinel_counterexample:
  "strip (text_line []) = [] \<and>
   parse py_int example_state (example_hit @ [text_line []]) =
     ([], Inl (ValueError AdditionalData))"
  by code_simp

section \<open>The lengths of the two gapped sequences\<close>

text \<open>
  Claim C5.  When the record of a hit is built while the gapped target sequence and the
  gapped query sequence differ in length, \<^const>\<open>create_alignment\<close> raises and returns
  no record.  The exception is the \<^verbatim>\<open>AssertionError\<close> of line 110 exactly when the
  statements before it pass and the lengths differ; with equal lengths that assertion
  is passed.
\<close>

theorem track_length_mismatch_fails:
  "hit self = Some h \<Longrightarrow>
   (length (target_sequence h) \<noteq> length (query_sequence h) \<longrightarrow>
      (\<exists>e. create_alignment self = Inl e)) \<and>
   (create_alignment self =
      Inl (AssertionError ''len(target_sequence) == len(query_sequence)'') \<longleftrightarrow>
    query_name self \<noteq> None \<and> query_length self \<noteq> None \<and>
    query_length self = Match_columns (metadata self) \<and> target_name self \<noteq> None \<and>
    length (target_sequence h) \<noteq> length (query_sequence h))"
proof -
  assume h: "hit self = Some h"
  let ?e = "AssertionError ''len(target_sequence) == len(query_sequence)''"
  have 1: "\<exists>e. create_alignment self = Inl e"
    if "length (target_sequence h) \<noteq> length (query_sequence h)"
    using that h by (cases "create_alignment self") (auto elim!: create_alignmentE)
  have 2: "query_name self \<noteq> None \<and> query_length self \<noteq> None \<and>
    query_length self = Match_columns (metadata self) \<and> target_name self \<noteq> None \<and>
    length (target_sequence h) \<noteq> length (query_sequence h)"
    if "create_alignment self = Inl ?e"
    using create_alignment_Inl[OF that] h by auto
  have 3: "create_alignment self = Inl ?e"
    if "query_name self \<noteq> None \<and> query_length self \<noteq> None \<and>
    query_length self = Match_columns (metadata self) \<and> target_name self \<noteq> None \<and>
    length (target_sequence h) \<noteq> length (query_sequence h)"
    using that h by (auto simp: create_alignment_def)
  from 1 2 3 show "(length (target_sequence h) \<noteq> length (query_sequence h) \<longrightarrow>
      (\<exists>e. create_alignment self = Inl e)) \<and>
   (create_alignment self =
      Inl (AssertionError ''len(target_sequence) == len(query_sequence)'') \<longleftrightarrow>
    query_name self \<noteq> None \<and> query_length self \<noteq> None \<and>
    query_length self = Match_columns (metadata self) \<and> target_name self \<noteq> None \<and>
    length (target_sequence h) \<noteq> length (query_sequence h))"
    by blast
qed

theorem track_length_mismatch_fails_witness:
  "create_alignment
     (example_final\<lparr>hit :=
        map_option (\<lambda>h. h\<lparr>target_sequence := ''ABCD''\<rparr>) (hit example_final)\<rparr>) =
   Inl (AssertionError ''len(target_sequence) == len(query_sequence)'')"
proof -
  let ?h = "the (hit example_final)\<lparr>target_sequence := ''ABCD''\<rparr>"
  let ?s = "example_final\<lparr>hit :=
     map_option (\<lambda>h. h\<lparr>target_sequence := ''ABCD''\<rparr>) (hit example_final)\<rparr>"
  have h: "hit ?s = Some ?h"
    by (simp add: example_final_def)
  have c: "query_name ?s \<noteq> None \<and> query_length ?s \<noteq> None \<and>
    query_length ?s = Match_columns (metadata ?s) \<and> target_name ?s \<noteq> None \<and>
    length (target_sequence ?h) \<noteq> length (query_sequence ?h)"
    by (simp add: example_final_def example_state_def)
  from track_length_mismatch_fails[OF h] c show ?thesis by blast
qed

section \<open>The name on a query sequence line\<close>

text \<open>
  Claim C3, as amended.  On a \<^verbatim>\<open>Q\<close> sequence line the parser checks that the name on
  the line is a prefix of the query identifier of the header (line 220:
  \<^verbatim>\<open>self.query_name.startswith(key2)\<close>).  When it is not, the step raises the
  \<^verbatim>\<open>AssertionError\<close> of that line; when it is, that assertion is passed, and the line
  is accepted if its start, end and total are well formed and a hit has been started.
\<close>

theorem query_name_check:
  "is_query_line raw \<Longrightarrow>
   split (rstrip raw) = [key1, key2, start, sequence, end', total'] \<Longrightarrow>
   query_name self = Some qname \<Longrightarrow>
   (\<not> prefix key2 qname \<longrightarrow>
      step py_float self raw stream =
        ([], Inl (AssertionError ''self.query_name.startswith(key2)''))) \<and>
   (prefix key2 qname \<longrightarrow>
      step py_float self raw stream \<noteq>
        ([], Inl (AssertionError ''self.query_name.startswith(key2)''))) \<and>
   (prefix key2 qname \<and> read_range start end' total' = Inr (s, e, t) \<and> hit self \<noteq> None \<longrightarrow>
      (\<exists>self'. step py_float self raw stream = ([], Inr (self', stream))))"
  by (auto simp: step_query_line query_line_def bind_def read_range_def update_hit_def
           int_of_def split: sum.splits if_splits option.splits)

theorem query_name_check_witness:
  "step py_int (example_final\<lparr>query_name := Some ''qn''\<rparr>)
       (text_line ''Q qname           3 -   2 (3)'') [] =
     ([], Inl (AssertionError ''self.query_name.startswith(key2)'')) \<and>
   (\<exists>self'. step py_int example_final (text_line ''Q qname           3 -   2 (3)'') [] =
     ([], Inr (self', [])))"
proof -
  let ?raw = "text_line ''Q qname           3 -   2 (3)''"
  have q: "is_query_line ?raw"
    unfolding is_query_line_def by code_simp
  have s: "split (rstrip ?raw) = [''Q'', ''qname'', ''3'', ''-'', ''2'', ''(3)'']"
    by code_simp
  have n1: "query_name (example_final\<lparr>query_name := Some ''qn''\<rparr>) = Some ''qn''"
    by simp
  have n2: "query_name example_final = Some ''qname some description''"
    by (simp add: example_final_def example_state_def)
  have p1: "\<not> prefix ''qname'' ''qn''" by simp
  have p2: "prefix ''qname'' ''qname some description'' \<and>
     read_range ''3'' ''2'' ''(3)'' = Inr (2, 2, 3) \<and> hit example_final \<noteq> None"
    by code_simp
  from query_name_check[OF q s n1, where py_float = py_int and stream = "[]"] p1
       query_name_check[OF q s n2, where py_float = py_int and stream = "[]"
                                     and s = 2 and e = 2 and t = 3] p2
  show ?thesis by blast
qed

text \<open>
  Claim C3 as stated fails in both directions: a line whose name extends the query
  identifier \<^verbatim>\<open>qn\<close> is rejected, and a line whose name \<^verbatim>\<open>qname\<close> is a proper prefix of
  the query identifier (which is therefore no prefix of the name) is accepted.
\<close>

theorem name_extending_query_counterexample:
  "prefix ''qn'' ''qname'' \<and>
   step py_int (example_final\<lparr>query_name := Some ''qn''\<rparr>)
       (text_line ''Q qname           3 -   2 (3)'') [] =
     ([], Inl (AssertionError ''self.query_name.startswith(key2)'')) \<and>
   \<not> prefix ''qname some description'' ''qname'' \<and>
   query_name example_final = Some ''qname some description'' \<and>
   \<not> isl (snd (step py_int example_final (text_line ''Q qname           3 -   2 (3)'') []))"
  by code_simp

section \<open>The annotations of a hit\<close>







lemma step_hit_header:
  assumes "is_hit_header raw"
  shows "step py_float self raw stream = ([], start_hit py_float self (rstrip raw) stream)"
proof -
  from assms have "rstrip raw \<noteq> []" by (auto simp: is_hit_header_def)
  with assms show ?thesis by (simp add: step_def is_hit_header_def)
qed

lemma start_hit_Inr:
  assumes "start_hit py_float self line stream = Inr (self', stream')"
  shows "\<exists>nxt h. stream = nxt # stream' \<and> hit self' = Some h \<and>
    read_annotations py_float (split nxt) [] = Inr (annotations h) \<and>
    query_sequence h = [] \<and> query_start h = None \<and>
    target_sequence h = [] \<and> target_start h = None \<and>
    self' = self\<lparr>hit := Some h\<rparr>"
  using assms
  by (auto simp: start_hit_def bind_def split: list.splits sum.splits)





section \<open>Unknown keys in the header\<close>

lemma split1_key_token:
  assumes "strip raw \<noteq> []"
  shows "split1 (strip raw) = [key_token raw] \<or>
    (\<exists>val. split1 (strip raw) = [key_token raw, val])"
proof -
  have t: "lstrip (strip raw) = strip raw"
    by (simp add: strip_def lstrip_def)
  show ?thesis
  proof (cases "lstrip (dropWhile (\<lambda>c. \<not> isspace c) (strip raw)) = []")
    case True
    with assms t have "split1 (strip raw) = [key_token raw]"
      by (simp add: split1_def key_token_def Let_def)
    then show ?thesis ..
  next
    case False
    with assms t have
      "split1 (strip raw) =
         [key_token raw, lstrip (dropWhile (\<lambda>c. \<not> isspace c) (strip raw))]"
      by (simp add: split1_def key_token_def Let_def)
    then show ?thesis by blast
  qed
qed

lemma int_of_cases: "(\<exists>v. int_of s = Inl (ValueError v)) \<or> (\<exists>i. int_of s = Inr i)"
  by (auto simp: int_of_def split: option.splits)

lemma float_of_cases:
  "(\<exists>v. float_of py_float s = Inl (ValueError v)) \<or> (\<exists>x. float_of py_float s = Inr x)"
  by (auto simp: float_of_def split: option.splits)

lemma read_header_line:
  assumes "strip raw \<noteq> []"
  shows "(\<exists>v. read_header py_float (qn, md) (raw # stream) = Inl (ValueError v)) \<or>
    (key_token raw \<in> set known_keys \<and>
     (\<exists>qn' md'. read_header py_float (qn, md) (raw # stream) =
        read_header py_float (qn', md') stream))"
proof -
  from split1_key_token[OF assms] consider "split1 (strip raw) = [key_token raw]"
    | val where "split1 (strip raw) = [key_token raw, val]" by blast
  then show ?thesis
  proof cases
    case 1
    with assms show ?thesis by simp
  next
    case 2
    show ?thesis
    proof (cases "key_token raw \<in> set known_keys")
      case False
      with assms 2 show ?thesis by (simp add: known_keys_def)
    next
      case True
      then consider "key_token raw = ''Query''" | "key_token raw = ''Match_columns''"
        | "key_token raw = ''No_of_seqs''" | "key_token raw = ''Neff''"
        | "key_token raw = ''Template_Neff''" | "key_token raw = ''Searched_HMMs''"
        | "key_token raw = ''Date''" | "key_token raw = ''Command''"
        by (auto simp: known_keys_def)
      then show ?thesis
      proof cases
        case 1
        with assms 2 True show ?thesis by (simp; blast?)
      next
        case 2
        with assms \<open>split1 (strip raw) = [key_token raw, val]\<close> True int_of_cases[of val]
        show ?thesis by (elim disjE exE; simp add: bind_def; blast?)
      next
        case 3
        show ?thesis
        proof (cases "\<exists>value1 value2. split_sep '' out of '' val = [value1, value2]")
          case False
          with assms 3 \<open>split1 (strip raw) = [key_token raw, val]\<close>
          show ?thesis by (auto split: list.splits)
        next
          case yes: True
          then obtain value1 value2 where "split_sep '' out of '' val = [value1, value2]"
            by blast
          with assms 3 \<open>split1 (strip raw) = [key_token raw, val]\<close> True
            int_of_cases[of value1] int_of_cases[of value2]
          show ?thesis by (elim disjE exE; simp add: bind_def; blast?)
        qed
      next
        case 4
        with assms \<open>split1 (strip raw) = [key_token raw, val]\<close> True float_of_cases[of py_float val]
        show ?thesis by (elim disjE exE; simp add: bind_def; blast?)
      next
        case 5
        with assms \<open>split1 (strip raw) = [key_token raw, val]\<close> True float_of_cases[of py_float val]
        show ?thesis by (elim disjE exE; simp add: bind_def; blast?)
      next
        case 6
        with assms \<open>split1 (strip raw) = [key_token raw, val]\<close> True int_of_cases[of val]
        show ?thesis by (elim disjE exE; simp add: bind_def; blast?)
      next
        case 7
        with assms \<open>split1 (strip raw) = [key_token raw, val]\<close> True show ?thesis by (simp; blast?)
      next
        case 8
        with assms \<open>split1 (strip raw) = [key_token raw, val]\<close> True show ?thesis by (simp; blast?)
      qed
    qed
  qed
qed

lemma read_header_unknown:
  "raw \<in> set (header_lines stream) \<Longrightarrow> key_token raw \<notin> set known_keys \<Longrightarrow>
   \<exists>v. read_header py_float acc stream = Inl (ValueError v)"
proof (induction stream arbitrary: acc)
  case Nil
  then show ?case by (simp add: header_lines_def)
next
  case (Cons l stream)
  obtain qn md where acc: "acc = (qn, md)" by (cases acc)
  from Cons.prems(1) have l: "strip l \<noteq> []"
    by (auto simp: header_lines_def split: if_splits)
  with Cons.prems(1) have mem: "raw = l \<or> raw \<in> set (header_lines stream)"
    by (auto simp: header_lines_def)
  from read_header_line[OF l, of py_float qn md stream]
  show ?case
  proof (elim disjE conjE exE)
    fix v assume "read_header py_float (qn, md) (l # stream) = Inl (ValueError v)"
    with acc show ?thesis by blast
  next
    fix qn' md' assume k: "key_token l \<in> set known_keys"
      and r: "read_header py_float (qn, md) (l # stream) =
              read_header py_float (qn', md') stream"
    from k Cons.prems(2) mem have "raw \<in> set (header_lines stream)" by auto
    from Cons.IH[OF this Cons.prems(2), of "(qn', md')"] r acc show ?thesis by simp
  qed
qed

text \<open>
  Claim C8.  When a header line (a line before the first blank line) has a key other
  than the eight known ones, \<^verbatim>\<open>__init__\<close> raises a \<^verbatim>\<open>ValueError\<close>, so that no
  iterator exists and no record is produced.  When the line is the first line of the
  stream and has a value, it is the \<^verbatim>\<open>ValueError\<close> of line 71 for that key.
\<close>

theorem unknown_header_key_fails:
  "raw \<in> set (header_lines stream) \<Longrightarrow> key_token raw \<notin> set known_keys \<Longrightarrow>
   (\<exists>v. init py_float stream = Inl (ValueError v)) \<and>
   fst (alignments py_float stream) = [] \<and>
   (\<forall>rest val. stream = raw # rest \<and> split1 (strip raw) = [key_token raw, val] \<longrightarrow>
      init py_float stream = Inl (ValueError (UnknownKey (key_token raw))))"
proof -
  assume a: "raw \<in> set (header_lines stream)" "key_token raw \<notin> set known_keys"
  from read_header_unknown[OF a] obtain v where
    v: "read_header py_float (None, empty_metadata) stream = Inl (ValueError v)"
    by blast
  then have i: "init py_float stream = Inl (ValueError v)"
    by (simp add: init_def bind_def)
  have "init py_float stream = Inl (ValueError (UnknownKey (key_token raw)))"
    if "stream = raw # rest" "split1 (strip raw) = [key_token raw, val]" for rest val
  proof -
    from a(1) that(1) have "strip raw \<noteq> []"
      by (auto simp: header_lines_def split: if_splits)
    with that a(2) show ?thesis
      by (simp add: init_def bind_def known_keys_def)
  qed
  with i show ?thesis by (auto simp: alignments_def)
qed

theorem unknown_header_key_fails_witness:
  "(\<exists>v. init py_int
      [text_line ''Query qname'', text_line ''Foo bar'', text_line [], text_line ''No 1''] =
      Inl (ValueError v)) \<and>
   init py_int [text_line ''Foo bar'', text_line []] = Inl (ValueError (UnknownKey ''Foo''))"
proof -
  let ?s = "[text_line ''Query qname'', text_line ''Foo bar'', text_line [], text_line ''No 1'']"
  have 1: "text_line ''Foo bar'' \<in> set (header_lines ?s)"
    unfolding header_lines_def by code_simp
  have 2: "text_line ''Foo bar'' \<in> set (header_lines [text_line ''Foo bar'', text_line []])"
    unfolding header_lines_def by code_simp
  have k: "key_token (text_line ''Foo bar'') = ''Foo''"
    unfolding key_token_def by code_simp
  have 3: "key_token (text_line ''Foo bar'') \<notin> set known_keys"
    unfolding k known_keys_def by simp
  have 4: "split1 (strip (text_line ''Foo bar'')) = [key_token (text_line ''Foo bar''), ''bar'']"
    unfolding k by code_simp
  from unknown_header_key_fails[OF 1 3, of py_int]
       unknown_header_key_fails[OF 2 3, of py_int] 4 k
  show ?thesis by auto
qed

section \<open>The per-residue annotation tracks\<close>

lemma pad_track_padded: "pad_track start total' s = padded start total' s"
  by (simp add: pad_track_def padded_def spaces_def Let_def)

text \<open>
  Claim C6.  In every record that \<^const>\<open>parse\<close> yields, the letter annotations of the
  query are its \<^verbatim>\<open>Consensus\<close> and \<^verbatim>\<open>ss_pred\<close> tracks and those of the target its
  \<^verbatim>\<open>Consensus\<close>, \<^verbatim>\<open>ss_dssp\<close>, \<^verbatim>\<open>ss_pred\<close> and \<^verbatim>\<open>Confidence\<close> tracks, and each of them
  is exactly as long as the declared total length of its sequence.  Each track is formed
  from the accumulated track by removing its \<^verbatim>\<open>-\<close> characters (its blanks for
  \<^verbatim>\<open>Confidence\<close>), putting it behind as many blanks as the start offset and filling it
  with blanks up to the total length.
\<close>

theorem annotation_tracks_padded:
  "(parse py_float self stream = (ys, r) \<and> a \<in> set ys \<longrightarrow>
      (\<forall>(key, t) \<in> set (letter_annotations (query a)).
         int (length t) = seq_length (query a)) \<and>
      (\<forall>(key, t) \<in> set (letter_annotations (target a)).
         int (length t) = seq_length (target a)) \<and>
      map fst (letter_annotations (query a)) = [''Consensus'', ''ss_pred''] \<and>
      map fst (letter_annotations (target a)) =
        [''Consensus'', ''ss_dssp'', ''ss_pred'', ''Confidence'']) \<and>
   (create_alignment self = Inr a \<and> hit self = Some h \<longrightarrow>
      (\<exists>qstart tstart.
         query_start h = Some qstart \<and> target_start h = Some tstart \<and>
         letter_annotations (query a) =
           [(''Consensus'',
               padded qstart (seq_length (query a)) (remove_char (CHR ''-'') (query_consensus h))),
            (''ss_pred'',
               padded qstart (seq_length (query a)) (remove_char (CHR ''-'') (query_ss_pred h)))] \<and>
         letter_annotations (target a) =
           [(''Consensus'',
               padded tstart (seq_length (target a)) (remove_char (CHR ''-'') (target_consensus h))),
            (''ss_dssp'',
               padded tstart (seq_length (target a)) (remove_char (CHR ''-'') (target_ss_dssp h))),
            (''ss_pred'',
               padded tstart (seq_length (target a)) (remove_char (CHR ''-'') (target_ss_pred h))),
            (''Confidence'',
               padded tstart (seq_length (target a)) (remove_char (CHR '' '') (confidence h)))] \<and>
         (\<forall>(key, t) \<in> set (letter_annotations (query a)).
            int (length t) = seq_length (query a)) \<and>
         (\<forall>(key, t) \<in> set (letter_annotations (target a)).
            int (length t) = seq_length (target a))))"
proof (intro conjI impI)
  assume "parse py_float self stream = (ys, r) \<and> a \<in> set ys"
  then obtain self' where b: "create_alignment self' = Inr a"
    using parse_yield by blast
  from b show
    "\<forall>(key, t) \<in> set (letter_annotations (query a)). int (length t) = seq_length (query a)"
    by (rule create_alignmentE)
  from b show
    "\<forall>(key, t) \<in> set (letter_annotations (target a)). int (length t) = seq_length (target a)"
    by (rule create_alignmentE)
  from b show "map fst (letter_annotations (query a)) = [''Consensus'', ''ss_pred'']"
    by (rule create_alignmentE) simp
  from b show "map fst (letter_annotations (target a)) =
        [''Consensus'', ''ss_dssp'', ''ss_pred'', ''Confidence'']"
    by (rule create_alignmentE) simp
next
  assume c: "create_alignment self = Inr a \<and> hit self = Some h"
  then have "create_alignment self = Inr a" ..
  then show "\<exists>qstart tstart.
         query_start h = Some qstart \<and> target_start h = Some tstart \<and>
         letter_annotations (query a) =
           [(''Consensus'',
               padded qstart (seq_length (query a)) (remove_char (CHR ''-'') (query_consensus h))),
            (''ss_pred'',
               padded qstart (seq_length (query a)) (remove_char (CHR ''-'') (query_ss_pred h)))] \<and>
         letter_annotations (target a) =
           [(''Consensus'',
               padded tstart (seq_length (target a)) (remove_char (CHR ''-'') (target_consensus h))),
            (''ss_dssp'',
               padded tstart (seq_length (target a)) (remove_char (CHR ''-'') (target_ss_dssp h))),
            (''ss_pred'',
               padded tstart (seq_length (target a)) (remove_char (CHR ''-'') (target_ss_pred h))),
            (''Confidence'',
               padded tstart (seq_length (target a)) (remove_char (CHR '' '') (confidence h)))] \<and>
         (\<forall>(key, t) \<in> set (letter_annotations (query a)).
            int (length t) = seq_length (query a)) \<and>
         (\<forall>(key, t) \<in> set (letter_annotations (target a)).
            int (length t) = seq_length (target a))"
  proof (rule create_alignmentE)
    fix qname tname h' qstart tstart
    assume "hit self = Some h'" "query_start h' = Some qstart" "target_start h' = Some tstart"
      "letter_annotations (query a) =
       [(''Consensus'', pad_track qstart (seq_length (query a))
                          (remove_char (CHR ''-'') (query_consensus h'))),
        (''ss_pred'', pad_track qstart (seq_length (query a))
                        (remove_char (CHR ''-'') (query_ss_pred h')))]"
      "letter_annotations (target a) =
       [(''Consensus'', pad_track tstart (seq_length (target a))
                          (remove_char (CHR ''-'') (target_consensus h'))),
        (''ss_dssp'', pad_track tstart (seq_length (target a))
                        (remove_char (CHR ''-'') (target_ss_dssp h'))),
        (''ss_pred'', pad_track tstart (seq_length (target a))
                        (remove_char (CHR ''-'') (target_ss_pred h'))),
        (''Confidence'', pad_track tstart (seq_length (target a))
                           (remove_char (CHR '' '') (confidence h')))]"
      "\<forall>(key, t) \<in> set (letter_annotations (query a)). int (length t) = seq_length (query a)"
      "\<forall>(key, t) \<in> set (letter_annotations (target a)). int (length t) = seq_length (target a)"
    with c show ?thesis
      by (intro exI[of _ qstart] exI[of _ tstart]) (simp add: pad_track_padded)
  qed
qed

theorem annotation_tracks_padded_witness:
  "map (\<lambda>(key, t). (key, int (length t)))
     (letter_annotations (query (hd (fst (parse py_int example_state example_hit))))) =
     [(''Consensus'', 3), (''ss_pred'', 3)] \<and>
   letter_annotations (query (projr (create_alignment example_final))) =
     [(''Consensus'', padded 0 3 ''ab''), (''ss_pred'', padded 0 3 ''CC'')]"
proof -
  let ?p = "parse py_int example_state example_hit"
  let ?a = "projr (create_alignment example_final)"
  let ?h = "the (hit example_final)"
  let ?las = "letter_annotations (query (hd (fst ?p)))"
  have 0: "?p = (fst ?p, snd ?p) \<and> hd (fst ?p) \<in> set (fst ?p)"
    using parse_example_yields by simp
  have 1: "create_alignment example_final = Inr ?a \<and> hit example_final = Some ?h"
    by code_simp
  have 3: "seq_length (query (hd (fst ?p))) = 3 \<and> seq_length (query ?a) = 3"
    by code_simp
  have 4: "query_start ?h = Some 0 \<and>
    remove_char (CHR ''-'') (query_consensus ?h) = ''ab'' \<and>
    remove_char (CHR ''-'') (query_ss_pred ?h) = ''CC''"
    by code_simp
  from annotation_tracks_padded[where py_float = py_int and self = example_state
         and stream = example_hit and ys = "fst ?p" and r = "snd ?p" and a = "hd (fst ?p)"] 0
  have a: "\<forall>(key, t) \<in> set ?las. int (length t) = seq_length (query (hd (fst ?p)))"
    and k: "map fst ?las = [''Consensus'', ''ss_pred'']"
    by blast+
  from k obtain x y where "?las = [(''Consensus'', x), (''ss_pred'', y)]"
    by (auto simp: map_eq_Cons_conv)
  with a 3 have b: "map (\<lambda>(key, t). (key, int (length t))) ?las =
     [(''Consensus'', 3), (''ss_pred'', 3)]"
    by simp
  from annotation_tracks_padded[where self = example_final and a = ?a and h = ?h] 1
  have "\<exists>qstart tstart.
         query_start ?h = Some qstart \<and> target_start ?h = Some tstart \<and>
         letter_annotations (query ?a) =
           [(''Consensus'',
               padded qstart (seq_length (query ?a)) (remove_char (CHR ''-'') (query_consensus ?h))),
            (''ss_pred'',
               padded qstart (seq_length (query ?a)) (remove_char (CHR ''-'') (query_ss_pred ?h)))]"
    by blast
  with 3 4 have "letter_annotations (query ?a) =
     [(''Consensus'', padded 0 3 ''ab''), (''ss_pred'', padded 0 3 ''CC'')]"
    by (simp only: ) auto
  with b show ?thesis by (intro conjI)
qed

text \<open>
  A hit whose query consensus does not fit the query total yields no record: the
  assignment of line 127 is refused.
\<close>

lemma overlong_hit_raises:
  "parse py_int example_state overlong_hit = ([], Inl TypeError)"
  by code_simp

section \<open>The number of records\<close>

lemma update_hit_counter:
  "update_hit self attr f = Inr self' \<Longrightarrow> counter self' = counter self"
  by (auto simp: update_hit_def split: option.splits)

lemma hit_separator_counter:
  "hit_separator self line stream = (ys, Inr (self', stream')) \<Longrightarrow>
   counter self' = counter self + 1 \<and> length ys = (if counter self > 0 then 1 else 0)"
  by (auto simp: hit_separator_def Let_def bind_def map_sum_def
           split: if_splits sum.splits list.splits)

lemma step_counter_cases:
  "step py_float self raw stream = (ys, Inr (self', stream')) \<Longrightarrow>
   (counter self' = counter self \<and> ys = []) \<or>
   (counter self' = counter self + 1 \<and> length ys = (if counter self > 0 then 1 else 0))"
  unfolding step_def Let_def
  by (auto simp: bind_def start_hit_def confidence_line_def
       ss_line_def consensus_line_def query_line_def target_line_def
       dest!: hit_separator_counter update_hit_counter
       split: if_splits sum.splits list.splits option.splits prod.splits)

lemma step_counter:
  assumes "step py_float self raw stream = (ys, Inr (self', stream'))" "0 \<le> counter self"
  shows "counter self \<le> counter self' \<and>
    int (length ys) = yielded_before (counter self') - yielded_before (counter self)"
  using step_counter_cases[OF assms(1)] assms(2)
  by (auto simp: yielded_before_def)

lemma parse_loop_count:
  "parse_loop py_float self stream = (ys, Inr (self', stream')) \<Longrightarrow> 0 \<le> counter self \<Longrightarrow>
   int (length ys) = yielded_before (number self) - yielded_before (counter self) + 1 \<and>
   counter self \<le> number self"
proof (induction py_float self stream arbitrary: ys rule: parse_loop.induct)
  case (1 py_float self)
  then show ?case
    by (auto simp: finish_def split: sum.splits if_splits)
next
  case (2 py_float self raw stream)
  obtain ys1 r1 where st: "step py_float self raw stream = (ys1, r1)"
    by (cases "step py_float self raw stream")
  from st "2.prems"(1) obtain self1 stream1 where r1: "r1 = Inr (self1, stream1)"
    by (cases r1) auto
  obtain zs r2 where pl: "parse_loop py_float self1 stream1 = (zs, r2)"
    by (cases "parse_loop py_float self1 stream1")
  from st r1 pl "2.prems"(1) have ys: "ys = ys1 @ zs" and r2: "r2 = Inr (self', stream')"
    by simp_all
  from st r1 have n: "number self1 = number self"
    using step_metadata by blast
  from step_counter[OF st[unfolded r1] "2.prems"(2)]
  have c: "counter self \<le> counter self1"
    "int (length ys1) = yielded_before (counter self1) - yielded_before (counter self)"
    by simp_all
  with "2.prems"(2) have "0 \<le> counter self1" by simp
  from "2.IH"[OF st[symmetric] r1 refl pl[unfolded r2] this] n
  have "int (length zs) =
      yielded_before (number self) - yielded_before (counter self1) + 1"
    "counter self1 \<le> number self"
    by simp_all
  with c ys show ?case by simp
qed

lemma init_counter:
  "init py_float stream = Inr (self, rest) \<Longrightarrow> counter self = 0"
  by (auto simp: init_def bind_def split: sum.splits list.splits if_splits prod.splits)

text \<open>
  Claim C1.  On a stream on which neither \<^verbatim>\<open>__init__\<close> nor the generator raises, the
  generator yields exactly as many records as the summary table has rows (the
  \<open>number\<close> that \<^const>\<open>init\<close> stores).  The same holds for \<^const>\<open>parse\<close> from any state
  whose counter is 0.  When the number is 0, \<^const>\<open>parse\<close> yields nothing and returns
  with the state and the stream as they were: no line is read.
\<close>

theorem parse_yields_number:
  "(alignments py_float stream = (ys, Inr fin) \<longrightarrow>
      (\<exists>self rest. init py_float stream = Inr (self, rest) \<and>
         parse py_float self rest = (ys, Inr fin) \<and>
         int (length ys) = number self)) \<and>
   (counter self = 0 \<and> parse py_float self rest = (ys, Inr fin) \<longrightarrow>
      int (length ys) = number self) \<and>
   (number self = 0 \<longrightarrow> parse py_float self rest = ([], Inr (self, rest)))"
proof -
  have p: "int (length ys) = number self"
    if "counter self = 0" "parse py_float self rest = (ys, Inr fin)" for self rest
  proof (cases "number self = 0")
    case True
    with that show ?thesis by (simp add: parse_def)
  next
    case False
    with that(2) have "parse_loop py_float self rest = (ys, Inr fin)"
      by (simp add: parse_def)
    from parse_loop_count[of py_float self rest ys "fst fin" "snd fin"] this that(1) False
    show ?thesis by (simp add: yielded_before_def)
  qed
  have "\<exists>self rest. init py_float stream = Inr (self, rest) \<and>
         parse py_float self rest = (ys, Inr fin) \<and> int (length ys) = number self"
    if a: "alignments py_float stream = (ys, Inr fin)"
  proof -
    from a obtain self rest where i: "init py_float stream = Inr (self, rest)"
      and q: "parse py_float self rest = (ys, Inr fin)"
      by (auto simp: alignments_def split: sum.splits)
    from p[OF init_counter[OF i] q] i q show ?thesis by blast
  qed
  with p show ?thesis by (auto simp: parse_def)
qed

theorem parse_yields_number_witness:
  "int (length (fst (alignments py_int (example_header @ example_hit)))) = 1 \<and>
   parse py_int (example_state\<lparr>number := 0\<rparr>) example_hit =
     ([], Inr (example_state\<lparr>number := 0\<rparr>, example_hit))"
proof -
  let ?r = "alignments py_int (example_header @ example_hit)"
  have "\<not> isl (snd ?r)" by code_simp
  then have r: "?r = (fst ?r, Inr (projr (snd ?r)))"
    by (simp add: prod_eq_iff)
  have i: "init py_int (example_header @ example_hit) = Inr (example_state, example_hit)"
    by code_simp
  have n: "number example_state = 1" "number (example_state\<lparr>number := 0\<rparr>) = 0"
    by (simp_all add: example_state_def)
  from parse_yields_number[of py_int "example_header @ example_hit" "fst ?r" "projr (snd ?r)"
         "example_state\<lparr>number := 0\<rparr>" example_hit] r i n
  show ?thesis by auto
qed

section \<open>Hits wrapped into several blocks\<close>

lemma read_range_start:
  "read_range start end' total' = Inr (s, e, t) \<Longrightarrow> map_option (\<lambda>v. v - 1) (py_int start) = Some s"
  by (auto simp: read_range_def bind_def int_of_def split: sum.splits if_splits option.splits)

lemma query_not_target: "is_query_line raw \<Longrightarrow> \<not> is_target_line raw"
  by (auto simp: is_query_line_def is_target_line_def prefix_def)

lemma query_line_Inr:
  assumes "query_line self line = Inr self'"
  obtains key1 key2 start sequence end' total' s h h' where
    "split line = [key1, key2, start, sequence, end', total']"
    "map_option (\<lambda>v. v - 1) (py_int start) = Some s"
    "hit self = Some h" "hit self' = Some h'" "counter self' = counter self"
    "query_sequence h' = query_sequence h @ sequence"
    "query_start h' = (if query_start h = None then Some s else query_start h)"
    "target_sequence h' = target_sequence h" "target_start h' = target_start h"
    "query_length self' = py_int (slice_1_m1 total')" "query_length self' \<noteq> None"
    "target_length self' = target_length self"
proof -
  from assms obtain key1 key2 start sequence end' total' where
    sp: "split line = [key1, key2, start, sequence, end', total']"
    by (auto simp: query_line_def split: list.splits)
  from assms sp obtain s e t where rr: "read_range start end' total' = Inr (s, e, t)"
    and u: "update_hit (self\<lparr>query_length := Some t\<rparr>) ''query_start''
              (\<lambda>h. h\<lparr>query_start := (if query_start h = None then Some s else query_start h),
                      query_sequence := query_sequence h @ sequence\<rparr>) = Inr self'"
    by (auto simp: query_line_def bind_def split: option.splits if_splits sum.splits)
  from u obtain h where h: "hit self = Some h"
    and s': "self' = self\<lparr>query_length := Some t, hit := Some
       (h\<lparr>query_start := (if query_start h = None then Some s else query_start h),
          query_sequence := query_sequence h @ sequence\<rparr>)\<rparr>"
    by (auto simp: update_hit_def split: option.splits)
  have h': "hit self' = Some
       (h\<lparr>query_start := (if query_start h = None then Some s else query_start h),
          query_sequence := query_sequence h @ sequence\<rparr>)"
    by (simp add: s')
  show thesis
    by (rule that[OF sp read_range_start[OF rr] h h']) (simp_all add: s' read_range_Inr[OF rr])
qed

lemma target_line_Inr:
  assumes "target_line self line = Inr self'"
  obtains key name start sequence end' total' s h h' where
    "split line = [key, name, start, sequence, end', total']"
    "map_option (\<lambda>v. v - 1) (py_int start) = Some s"
    "hit self = Some h" "hit self' = Some h'" "counter self' = counter self"
    "target_sequence h' = target_sequence h @ sequence"
    "target_start h' = (if target_start h = None then Some s else target_start h)"
    "query_sequence h' = query_sequence h" "query_start h' = query_start h"
    "target_length self' = py_int (slice_1_m1 total')" "target_length self' \<noteq> None"
    "query_length self' = query_length self"
proof -
  from assms obtain key name start sequence end' total' where
    sp: "split line = [key, name, start, sequence, end', total']"
    by (auto simp: target_line_def split: list.splits)
  from assms sp obtain s e t where rr: "read_range start end' total' = Inr (s, e, t)"
    and u: "update_hit (self\<lparr>target_name := Some name, target_length := Some t\<rparr>)
              ''target_start''
              (\<lambda>h. h\<lparr>target_start := (if target_start h = None then Some s else target_start h),
                      target_sequence := target_sequence h @ sequence\<rparr>) = Inr self'"
    by (auto simp: target_line_def bind_def split: option.splits if_splits sum.splits)
  from u obtain h where h: "hit self = Some h"
    and s': "self' = self\<lparr>target_name := Some name, target_length := Some t, hit := Some
       (h\<lparr>target_start := (if target_start h = None then Some s else target_start h),
          target_sequence := target_sequence h @ sequence\<rparr>)\<rparr>"
    by (auto simp: update_hit_def split: option.splits)
  have h': "hit self' = Some
       (h\<lparr>target_start := (if target_start h = None then Some s else target_start h),
          target_sequence := target_sequence h @ sequence\<rparr>)"
    by (simp add: s')
  show thesis
    by (rule that[OF sp read_range_start[OF rr] h h']) (simp_all add: s' read_range_Inr[OF rr])
qed

lemma step_other_line:
  assumes "is_block_line raw" "\<not> is_query_line raw" "\<not> is_target_line raw"
    and "step py_float self raw stream = (ys, Inr (self', stream'))"
  shows "ys = [] \<and> stream' = stream \<and> counter self' = counter self \<and>
    query_length self' = query_length self \<and> target_length self' = target_length self \<and>
    (\<forall>h. hit self = Some h \<longrightarrow>
       (\<exists>h'. hit self' = Some h' \<and>
          query_sequence h' = query_sequence h \<and> query_start h' = query_start h \<and>
          target_sequence h' = target_sequence h \<and> target_start h' = target_start h))"
  using assms
  unfolding step_def Let_def is_block_line_def is_hit_header_def is_sentinel_def
    is_separator_def is_query_line_def is_target_line_def
  by (auto simp: bind_def confidence_line_def ss_line_def consensus_line_def update_hit_def
       split: if_splits sum.splits list.splits option.splits prod.splits)

lemma extends_Nil: "extends h [] h"
  by (simp add: extends_def track_def first_start_def split: option.splits)

lemma extends_Cons:
  assumes "extends h [raw] h1" "extends h1 ls h2"
    and "is_query_line raw \<longrightarrow> start_offset raw \<noteq> None"
    and "is_target_line raw \<longrightarrow> start_offset raw \<noteq> None"
  shows "extends h (raw # ls) h2"
  using assms
  by (auto simp: extends_def track_def first_start_def split: option.splits if_splits)

lemma step_block_line:
  assumes "is_block_line raw" "step py_float self raw stream = (ys, Inr (self', stream'))"
  shows "ys = [] \<and> stream' = stream \<and> counter self' = counter self \<and>
    (is_query_line raw \<longrightarrow> start_offset raw \<noteq> None) \<and>
    (is_target_line raw \<longrightarrow> start_offset raw \<noteq> None) \<and>
    (\<forall>h. hit self = Some h \<longrightarrow> (\<exists>h'. hit self' = Some h' \<and> extends h [raw] h')) \<and>
    query_length self' = (if is_query_line raw then total_of raw else query_length self) \<and>
    target_length self' = (if is_target_line raw then total_of raw else target_length self)"
proof (cases "is_query_line raw")
  case True
  note nt = query_not_target[OF True]
  from assms(2) have q: "query_line self (rstrip raw) = Inr self'" and s: "ys = []" "stream' = stream"
    by (auto simp: step_query_line[OF True] bind_def split: sum.splits)
  from q show ?thesis
  proof (rule query_line_Inr)
    fix key1 key2 start sequence end' total' s h h'
    assume "split (rstrip raw) = [key1, key2, start, sequence, end', total']"
      "map_option (\<lambda>v. v - 1) (py_int start) = Some s"
      "hit self = Some h" "hit self' = Some h'" "counter self' = counter self"
      "query_sequence h' = query_sequence h @ sequence"
      "query_start h' = (if query_start h = None then Some s else query_start h)"
      "target_sequence h' = target_sequence h" "target_start h' = target_start h"
      "query_length self' = py_int (slice_1_m1 total')" "query_length self' \<noteq> None"
      "target_length self' = target_length self"
    with True nt s show ?thesis
      by (auto simp: extends_def track_def first_start_def segment_def start_offset_def
               total_of_def split: option.splits)
  qed
next
  case nq: False
  show ?thesis
  proof (cases "is_target_line raw")
    case True
    from assms(2) have q: "target_line self (rstrip raw) = Inr self'"
      and s: "ys = []" "stream' = stream"
      by (auto simp: step_target_line[OF True] bind_def split: sum.splits)
    from q show ?thesis
    proof (rule target_line_Inr)
      fix key name start sequence end' total' s h h'
      assume "split (rstrip raw) = [key, name, start, sequence, end', total']"
        "map_option (\<lambda>v. v - 1) (py_int start) = Some s"
        "hit self = Some h" "hit self' = Some h'" "counter self' = counter self"
        "target_sequence h' = target_sequence h @ sequence"
        "target_start h' = (if target_start h = None then Some s else target_start h)"
        "query_sequence h' = query_sequence h" "query_start h' = query_start h"
        "target_length self' = py_int (slice_1_m1 total')" "target_length self' \<noteq> None"
        "query_length self' = query_length self"
      with True nq s show ?thesis
        by (auto simp: extends_def track_def first_start_def segment_def start_offset_def
                 total_of_def split: option.splits)
    qed
  next
    case False
    from step_other_line[OF assms(1) nq False assms(2)] nq False show ?thesis
      by (auto simp: extends_def track_def first_start_def split: option.splits)
  qed
qed

lemma parse_loop_Cons_Inr:
  assumes "parse_loop py_float self (raw # stream) = (ys, Inr fin)"
  obtains ys1 self1 stream1 zs where
    "step py_float self raw stream = (ys1, Inr (self1, stream1))"
    "parse_loop py_float self1 stream1 = (zs, Inr fin)" "ys = ys1 @ zs"
  using assms
  by (auto split: prod.splits sum.splits)

lemma last_total_Nil: "last_total kind [] = None"
  by (simp add: last_total_def)

lemma last_total_Cons:
  "last_total kind (raw # ls) =
     (if filter kind ls = [] then (if kind raw then total_of raw else None)
      else last_total kind ls)"
  by (cases "rev (filter kind ls)") (auto simp: last_total_def)

lemma lengths_after_Cons:
  assumes "query_length self1 = (if is_query_line raw then total_of raw else query_length self)"
    and "target_length self1 = (if is_target_line raw then total_of raw else target_length self)"
    and "lengths_after self1 ls self2"
  shows "lengths_after self (raw # ls) self2"
  using assms by (simp add: lengths_after_def last_total_Cons)

lemma block_lines:
  assumes "list_all is_block_line ls" "parse_loop py_float self (ls @ rest) = (ys, Inr fin)"
  shows "\<exists>self1. parse_loop py_float self1 rest = (ys, Inr fin) \<and>
    counter self1 = counter self \<and> lengths_after self ls self1 \<and>
    (\<forall>h. hit self = Some h \<longrightarrow> (\<exists>h1. hit self1 = Some h1 \<and> extends h ls h1))"
  using assms
proof (induction ls arbitrary: self ys)
  case Nil
  then show ?case by (auto simp: lengths_after_def intro: extends_Nil)
next
  case (Cons raw ls)
  from Cons.prems(2) have "parse_loop py_float self (raw # (ls @ rest)) = (ys, Inr fin)"
    by simp
  then obtain ys1 self1 stream1 zs where
    st: "step py_float self raw (ls @ rest) = (ys1, Inr (self1, stream1))"
    and pl: "parse_loop py_float self1 stream1 = (zs, Inr fin)" and ys: "ys = ys1 @ zs"
    by (rule parse_loop_Cons_Inr)
  from Cons.prems(1) have b: "is_block_line raw" "list_all is_block_line ls" by simp_all
  note s = step_block_line[OF b(1) st]
  from s pl ys have "parse_loop py_float self1 (ls @ rest) = (ys, Inr fin)" by simp
  from Cons.IH[OF b(2) this] obtain self2 where
    2: "parse_loop py_float self2 rest = (ys, Inr fin)" "counter self2 = counter self1"
    "lengths_after self1 ls self2"
    "\<forall>h. hit self1 = Some h \<longrightarrow> (\<exists>h1. hit self2 = Some h1 \<and> extends h ls h1)"
    by blast
  from s 2(3) have l: "lengths_after self (raw # ls) self2"
    by (intro lengths_after_Cons[of self1 raw self ls self2]) simp_all
  have "\<exists>h2. hit self2 = Some h2 \<and> extends h (raw # ls) h2" if "hit self = Some h" for h
  proof -
    from s that obtain h1 where h1: "hit self1 = Some h1" "extends h [raw] h1" by blast
    with 2(4) obtain h2 where h2: "hit self2 = Some h2" "extends h1 ls h2" by blast
    from extends_Cons[OF h1(2) h2(2)] s h2(1) show ?thesis by blast
  qed
  with 2(1,2) l s show ?case by (intro exI[of _ self2]) simp
qed

lemma hit_text_tuple: "hit_text (no, gt, kv, ls) = no # gt # kv # ls"
  by (simp add: hit_text_def)

lemma blocks_tuple: "blocks (no, gt, kv, ls) = ls"
  by (simp add: blocks_def)

lemma step_separator:
  assumes "is_separator raw"
  shows "step py_float self raw stream = hit_separator self (rstrip raw) stream"
proof -
  from assms obtain r where r: "rstrip raw = ''No '' @ r"
    by (auto simp: is_separator_def prefix_def)
  show ?thesis
    unfolding step_def Let_def by (simp add: r)
qed

lemma hit_separator_Inr:
  assumes "hit_separator self line stream = (ys, Inr (self', stream'))"
  shows "stream' = stream \<and> self' = self\<lparr>counter := counter self + 1\<rparr> \<and>
    (if counter self > 0 then \<exists>a. ys = [a] \<and> create_alignment self = Inr a else ys = [])"
  using assms
  by (auto simp: hit_separator_def Let_def bind_def map_sum_def
           split: if_splits sum.splits list.splits)

lemma create_alignment_built:
  assumes "create_alignment self = Inr a" "tracks_of self ls"
  shows "built_from a ls"
proof -
  from assms(2) obtain h where h: "hit self = Some h"
    "query_sequence h = track is_query_line ls" "target_sequence h = track is_target_line ls"
    "query_start h = first_start is_query_line ls"
    "target_start h = first_start is_target_line ls"
    by (auto simp: tracks_of_def)
  from assms(1) h(1) obtain qstart tstart where
    "query_start h = Some qstart" "target_start h = Some tstart"
    "seq_data (query a) = (qstart, remove_char (CHR ''-'') (query_sequence h))"
    "seq_data (target a) = (tstart, remove_char (CHR ''-'') (target_sequence h))"
    by (auto elim!: create_alignmentE)
  with h assms show ?thesis
    unfolding built_from_def by (intro exI[of _ self] exI[of _ qstart] exI[of _ tstart]) simp
qed

lemma one_hit:
  assumes "is_separator no" "is_hit_header gt" "list_all is_block_line ls"
    and "parse_loop py_float self (no # gt # kv # ls @ rest) = (ys, Inr fin)"
  shows "\<exists>pre ys' self4.
    ys = pre @ ys' \<and> parse_loop py_float self4 rest = (ys', Inr fin) \<and>
    counter self4 = counter self + 1 \<and> tracks_of self4 ls \<and> lengths_of self4 ls \<and>
    (if counter self > 0 then \<exists>a. pre = [a] \<and> create_alignment self = Inr a else pre = [])"
proof -
  from assms(4) obtain ys1 self1 stream1 zs1 where
    st1: "step py_float self no (gt # kv # ls @ rest) = (ys1, Inr (self1, stream1))"
    and pl1: "parse_loop py_float self1 stream1 = (zs1, Inr fin)" and ys: "ys = ys1 @ zs1"
    by (rule parse_loop_Cons_Inr)
  from st1 have "hit_separator self (rstrip no) (gt # kv # ls @ rest) = (ys1, Inr (self1, stream1))"
    by (simp add: step_separator[OF assms(1)])
  note sep = hit_separator_Inr[OF this]
  then have c1: "counter self1 = counter self + 1" by simp
  from sep pl1 have "parse_loop py_float self1 (gt # kv # ls @ rest) = (zs1, Inr fin)" by simp
  then obtain ys2 self2 stream2 zs2 where
    st2: "step py_float self1 gt (kv # ls @ rest) = (ys2, Inr (self2, stream2))"
    and pl2: "parse_loop py_float self2 stream2 = (zs2, Inr fin)" and zs1: "zs1 = ys2 @ zs2"
    by (rule parse_loop_Cons_Inr)
  from st2 have sh: "start_hit py_float self1 (rstrip gt) (kv # ls @ rest) = Inr (self2, stream2)"
    and ys2: "ys2 = []"
    by (simp_all add: step_hit_header[OF assms(2)])
  from start_hit_Inr[OF sh] obtain h where h: "stream2 = ls @ rest" "hit self2 = Some h"
    "query_sequence h = []" "query_start h = None" "target_sequence h = []"
    "target_start h = None" "self2 = self1\<lparr>hit := Some h\<rparr>"
    by auto
  from h(7) c1 have c2: "counter self2 = counter self + 1" by simp
  from pl2 h(1) have "parse_loop py_float self2 (ls @ rest) = (zs2, Inr fin)" by simp
  from block_lines[OF assms(3) this] h(2) obtain self4 h4 where
    4: "parse_loop py_float self4 rest = (zs2, Inr fin)" "counter self4 = counter self2"
    "hit self4 = Some h4" "extends h ls h4" "lengths_after self2 ls self4"
    by blast
  from 4(3,4) h(3-6) have "tracks_of self4 ls"
    by (simp add: tracks_of_def extends_def)
  moreover from 4(5) have "lengths_of self4 ls"
    by (simp add: lengths_of_def lengths_after_def)
  ultimately show ?thesis
    using 4(1,2) c2 ys zs1 ys2 sep
    by (intro exI[of _ ys1] exI[of _ zs2] exI[of _ self4]) simp
qed

lemma parse_loop_tail:
  assumes "tail = [] \<or> (\<exists>d. tail = [d] \<and> is_sentinel d)"
  shows "parse_loop py_float self tail = finish self"
  using assms by (auto simp: is_sentinel_def step_sentinel split: prod.splits)

lemma filter_first_start:
  "first_start kind ls = Some x \<Longrightarrow> filter kind ls \<noteq> []"
  by (auto simp: first_start_def)

lemma create_alignment_totals:
  assumes "create_alignment self = Inr a" "tracks_of self ls" "lengths_of self ls"
  shows "totals_used a ls"
proof -
  from assms(2) obtain h where h: "hit self = Some h"
    "query_start h = first_start is_query_line ls"
    "target_start h = first_start is_target_line ls"
    by (auto simp: tracks_of_def)
  from assms(1) h(1) obtain qstart tstart where
    "query_start h = Some qstart" "target_start h = Some tstart"
    and l: "query_length self = Some (seq_length (query a))"
      "target_length self = Some (seq_length (target a))"
    by (auto elim!: create_alignmentE)
  with h have "filter is_query_line ls \<noteq> []" "filter is_target_line ls \<noteq> []"
    by (auto dest: filter_first_start[OF sym])
  with assms(3) l show ?thesis
    by (simp add: totals_used_def lengths_of_def)
qed

lemma pending_hits:
  assumes "\<forall>hl\<in>set hits. well_shaped hl" "0 < counter self"
    and "tracks_of self ls0" "lengths_of self ls0"
    and "tail = [] \<or> (\<exists>d. tail = [d] \<and> is_sentinel d)"
    and "parse_loop py_float self (concat (map hit_text hits) @ tail) = (ys, Inr fin)"
  shows "list_all2 (\<lambda>a ls. built_from a ls \<and> totals_used a ls) ys (ls0 # map blocks hits)"
  using assms(1,2,3,4,6)
proof (induction hits arbitrary: self ls0 ys)
  case Nil
  then have "finish self = (ys, Inr fin)"
    by (simp add: parse_loop_tail[OF assms(5)])
  then obtain a where "ys = [a]" "create_alignment self = Inr a"
    by (auto simp: finish_def split: sum.splits if_splits)
  with create_alignment_built[OF this(2) Nil.prems(3)]
    create_alignment_totals[OF this(2) Nil.prems(3,4)]
  show ?case by simp
next
  case (Cons hl hits)
  obtain no gt kv ls where hl: "hl = (no, gt, kv, ls)" by (cases hl)
  from Cons.prems(1) hl have w: "is_separator no" "is_hit_header gt" "list_all is_block_line ls"
    by (simp_all add: well_shaped_def)
  from Cons.prems(5) hl
  have "parse_loop py_float self (no # gt # kv # ls @ (concat (map hit_text hits) @ tail)) =
      (ys, Inr fin)"
    by (simp add: hit_text_tuple del: parse_loop.simps)
  from one_hit[OF w this] Cons.prems(2) obtain a ys' self4 where
    1: "ys = a # ys'" "create_alignment self = Inr a"
    "parse_loop py_float self4 (concat (map hit_text hits) @ tail) = (ys', Inr fin)"
    "counter self4 = counter self + 1" "tracks_of self4 ls" "lengths_of self4 ls"
    by auto
  from 1(4) Cons.prems(2) have "0 < counter self4" by simp
  from Cons.IH[OF _ this 1(5) 1(6) 1(3)] Cons.prems(1)
  have "list_all2 (\<lambda>a ls. built_from a ls \<and> totals_used a ls) ys' (ls # map blocks hits)"
    by simp
  with 1(1) create_alignment_built[OF 1(2) Cons.prems(3)]
    create_alignment_totals[OF 1(2) Cons.prems(3,4)] hl
  show ?case
    by (simp add: blocks_tuple)
qed

lemma hits_records:
  assumes "\<forall>hl\<in>set hits. well_shaped hl" "hits \<noteq> []"
    and "counter self = 0" "number self \<noteq> 0"
    and "tail = [] \<or> (\<exists>d. tail = [d] \<and> is_sentinel d)"
    and "parse py_float self (concat (map hit_text hits) @ tail) = (ys, Inr fin)"
  shows "list_all2 (\<lambda>a ls. built_from a ls \<and> totals_used a ls) ys (map blocks hits)"
proof -
  from assms(2) obtain hl hits' where hits: "hits = hl # hits'" by (cases hits) auto
  obtain no gt kv ls where hl: "hl = (no, gt, kv, ls)" by (cases hl)
  from assms(1) hits hl have w: "is_separator no" "is_hit_header gt" "list_all is_block_line ls"
    by (simp_all add: well_shaped_def)
  from assms(4,6) hits hl
  have "parse_loop py_float self (no # gt # kv # ls @ (concat (map hit_text hits') @ tail)) =
      (ys, Inr fin)"
    by (simp add: parse_def hit_text_tuple del: parse_loop.simps)
  from one_hit[OF w this] assms(3) obtain self4 where
    1: "parse_loop py_float self4 (concat (map hit_text hits') @ tail) = (ys, Inr fin)"
    "counter self4 = counter self + 1" "tracks_of self4 ls" "lengths_of self4 ls"
    by auto
  from 1(2) assms(3) have "0 < counter self4" by simp
  from pending_hits[OF _ this 1(3) 1(4) assms(5) 1(1)] assms(1) hits
  have "list_all2 (\<lambda>a ls. built_from a ls \<and> totals_used a ls) ys (ls # map blocks hits')"
    by simp
  with hits hl show ?thesis by (simp add: blocks_tuple)
qed

lemma example_hit_text:
  "example_hit = concat (map hit_text [example_hit_lines]) @ [text_line ''Done!'']"
  by code_simp

text \<open>
  Claim C2.  Let the stream consist of the texts of one or more hits, each a \<^verbatim>\<open>No\<close>
  line, a \<^verbatim>\<open>>\<close> line, the line behind it and any number of block lines, optionally
  followed by the \<^verbatim>\<open>Done!\<close> line, and let \<^const>\<open>parse\<close> run on it without raising,
  from a state with counter 0 and a summary table that is not empty.  Then it yields
  exactly one record per hit, in order, and the record of a hit was built when the
  gapped query and target sequences were the concatenations of the segments of the
  \<^verbatim>\<open>Q\<close> and \<^verbatim>\<open>T\<close> sequence lines of all its blocks, in order, and the start offsets
  were \<^verbatim>\<open>start - 1\<close> of the first \<^verbatim>\<open>Q\<close> and the first \<^verbatim>\<open>T\<close> sequence line; later
  start values change nothing.  The record holds these sequences without their gaps
  at these offsets.
\<close>

theorem wrapped_hits_one_record_each:
  assumes "\<forall>hl\<in>set hits. well_shaped hl" "hits \<noteq> []"
    and "counter self = 0" "number self \<noteq> 0"
    and "tail = [] \<or> (\<exists>d. tail = [d] \<and> is_sentinel d)"
    and "parse py_float self (concat (map hit_text hits) @ tail) = (ys, Inr fin)"
  shows "list_all2 built_from ys (map blocks hits)"
  using hits_records[OF assms] by (rule list_all2_mono) simp

theorem wrapped_hits_one_record_each_witness:
  "list_all2 built_from (fst (parse py_int example_state example_hit))
     [blocks example_hit_lines] \<and>
   track is_query_line (blocks example_hit_lines) = ''AB-'' \<and>
   first_start is_query_line (blocks example_hit_lines) = Some 0 \<and>
   track is_target_line (blocks example_hit_lines) = ''ABC'' \<and>
   first_start is_target_line (blocks example_hit_lines) = Some 0"
proof -
  let ?p = "parse py_int example_state example_hit"
  have 1: "\<forall>hl\<in>set [example_hit_lines]. well_shaped hl"
    by code_simp
  have 2: "[example_hit_lines] \<noteq> []" by simp
  have 3: "counter example_state = 0" "number example_state \<noteq> 0"
    by (simp_all add: example_state_def)
  have "is_sentinel (text_line ''Done!'')"
    by code_simp
  then have 4: "[text_line ''Done!''] = [] \<or>
      (\<exists>d. [text_line ''Done!''] = [d] \<and> is_sentinel d)"
    by simp
  have "\<not> isl (snd ?p)" by code_simp
  then have "?p = (fst ?p, Inr (projr (snd ?p)))"
    by (simp add: prod_eq_iff)
  then have 5: "parse py_int example_state
      (concat (map hit_text [example_hit_lines]) @ [text_line ''Done!'']) =
      (fst ?p, Inr (projr (snd ?p)))"
    by (simp only: example_hit_text[symmetric])
  have 6: "track is_query_line (blocks example_hit_lines) = ''AB-'' \<and>
   first_start is_query_line (blocks example_hit_lines) = Some 0 \<and>
   track is_target_line (blocks example_hit_lines) = ''ABC'' \<and>
   first_start is_target_line (blocks example_hit_lines) = Some 0"
    by code_simp
  from wrapped_hits_one_record_each[OF 1 2 3 4 5] 6 show ?thesis by simp
qed

section \<open>Totals that differ between the blocks of a hit\<close>






end
